theory Spec2Isabelle
  imports Complex_Main "HOL-Library.AList"
begin

section \<open>OpenRXN: compartment models, connections and the ODE system\<close>

text \<open>
  A shallow embedding of \<^verbatim>\<open>openrxn/connections.py\<close>, \<^verbatim>\<open>openrxn/model.py\<close> and
  \<^verbatim>\<open>openrxn/systems/ODESystem.py\<close>.

  Numbers. The Python code computes with floats and with quantities of the unit library
  (pint). Here a number stands for the magnitude of the quantity in one coherent system
  of units whose volume unit is the liter and whose time unit is the second, so that
  re-expressing a rate in liter/second leaves the number as it is. The magnitude is a
  \<^typ>\<open>real\<close>; rounding and overflow are outside the model. What a division by zero does
  depends on the operands: between Python numbers it raises \<open>ZeroDivisionError\<close>, and
  when one of them is a numpy float it returns \<^verbatim>\<open>inf\<close>, \<^verbatim>\<open>-inf\<close> or \<^verbatim>\<open>nan\<close> (with a
  warning). A number therefore carries, besides its magnitude, whether it is a numpy
  float.

  Dictionaries are association lists in insertion order; \<open>map_of\<close> reads a key and
  \<open>AList.update\<close> is the assignment \<^verbatim>\<open>d[k] = v\<close>. Exceptions are values: a function
  that can raise returns \<open>error + 'a\<close>, with \<open>Inl\<close> the exception.
\<close>

subsection \<open>Exceptions\<close>

type_synonym species_id = string
type_synonym comp_id = string

datatype value_error =
    Bad_species_rates
  | Not_ready_to_resolve
  | Duplicate_compartment_ID comp_id
  | Missing_compartments "comp_id list"
  | No_adjoining_face
  | Bad_quantity_units

datatype error =
    ValueError value_error
  | TypeError
  | AttributeError string
  | KeyError
  | IndexError
  | ZeroDivisionError

definition bind_err :: "error + 'a \<Rightarrow> ('a \<Rightarrow> error + 'b) \<Rightarrow> error + 'b" where
  "bind_err x f = (case x of Inl e \<Rightarrow> Inl e | Inr a \<Rightarrow> f a)"

text \<open>
  A loop that runs its body on every element in turn and stops at the first exception;
  the subscript of a list (with a position that is not negative) and the subscript of a
  dictionary.
\<close>

fun foldE :: "('a \<Rightarrow> 's \<Rightarrow> error + 's) \<Rightarrow> 'a list \<Rightarrow> 's \<Rightarrow> error + 's" where
  "foldE f [] s = Inr s"
| "foldE f (x # xs) s = bind_err (f x s) (foldE f xs)"

definition item :: "'a list \<Rightarrow> nat \<Rightarrow> error + 'a" where
  "item xs i = (if i < length xs then Inr (xs ! i) else Inl IndexError)"

definition getitem :: "('k \<times> 'v) list \<Rightarrow> 'k \<Rightarrow> error + 'v" where
  "getitem d k = (case map_of d k of None \<Rightarrow> Inl KeyError | Some v \<Rightarrow> Inr v)"

subsection \<open>Numbers\<close>

text \<open>
  A number with a real magnitude is a Python number (an \<^verbatim>\<open>int\<close> or a \<^verbatim>\<open>float\<close>) or a numpy
  float (\<^verbatim>\<open>numpy.float64\<close>). The product and the powers of numbers are numpy floats as
  soon as an operand is one. \<^verbatim>\<open>min(a, b)\<close> is \<open>b\<close> when \<open>b < a\<close> and \<open>a\<close> otherwise.
\<close>

datatype number = Py real | Np real

fun magnitude :: "number \<Rightarrow> real" where
  "magnitude (Py x) = x"
| "magnitude (Np x) = x"

fun is_numpy :: "number \<Rightarrow> bool" where
  "is_numpy (Py x) = False"
| "is_numpy (Np x) = True"

definition result_of :: "number list \<Rightarrow> real \<Rightarrow> number" where
  "result_of operands x = (if list_ex is_numpy operands then Np x else Py x)"

definition py_mul :: "number \<Rightarrow> number \<Rightarrow> number" where
  "py_mul a b = result_of [a, b] (magnitude a * magnitude b)"

definition py_pow :: "number \<Rightarrow> nat \<Rightarrow> number" where
  "py_pow a n = result_of [a] (magnitude a ^ n)"

definition py_min :: "number \<Rightarrow> number \<Rightarrow> number" where
  "py_min a b = (if magnitude b < magnitude a then b else a)"

text \<open>
  What a division returns: a number, or a numpy float that is \<^verbatim>\<open>inf\<close>, \<^verbatim>\<open>-inf\<close> or \<^verbatim>\<open>nan\<close>;
  the model does not tell these three apart. The division of two Python numbers raises
  \<open>ZeroDivisionError\<close> when the divisor is zero. With a numpy float among the operands
  the division always returns: a numpy float, which is one of the three when the divisor
  is zero or the dividend is one of them.
\<close>

datatype numeric = Num number | Inf_or_nan

fun py_div :: "numeric \<Rightarrow> number \<Rightarrow> error + numeric" where
  "py_div (Num a) b =
     (if is_numpy a \<or> is_numpy b
      then Inr (if magnitude b = 0 then Inf_or_nan else Num (Np (magnitude a / magnitude b)))
      else if magnitude b = 0 then Inl ZeroDivisionError
      else Inr (Num (Py (magnitude a / magnitude b))))"
| "py_div Inf_or_nan b = Inr Inf_or_nan"

subsection \<open>connections.py\<close>

text \<open>
  A value of a \<^verbatim>\<open>species_rates\<close> dictionary: a single rate, or a tuple of rates.
\<close>

datatype rate = Scalar numeric | Tuple "numeric list"

text \<open>
  Isotropic and anisotropic connections are never changed after their construction and
  are held by value. A \<^verbatim>\<open>FicksConnection\<close> is changed by \<^verbatim>\<open>Model.resolve_ficks\<close> and may
  be shared by many compartments, so a compartment holds it by its address in a store.
  A \<^verbatim>\<open>FicksConnection\<close> never runs the constructor of its base class and has no attribute
  \<^verbatim>\<open>species_rates\<close>.
\<close>

type_synonym addr = nat

datatype connection =
    Isotropic "(species_id \<times> rate) list"
  | Anisotropic "(species_id \<times> rate) list"
  | Ficks addr

definition species_rates :: "connection \<Rightarrow> error + (species_id \<times> rate) list" where
  "species_rates conn =
     (case conn of
        Isotropic rates \<Rightarrow> Inr rates
      | Anisotropic rates \<Rightarrow> Inr rates
      | Ficks a \<Rightarrow> Inl (AttributeError ''species_rates''))"

definition is_tuple2 :: "rate \<Rightarrow> bool" where
  "is_tuple2 v = (case v of Scalar k \<Rightarrow> False | Tuple t \<Rightarrow> length t = 2)"

definition AnisotropicConnection_init :: "(species_id \<times> rate) list \<Rightarrow> error + connection" where
  "AnisotropicConnection_init rates =
     (if list_all (\<lambda>s. case map_of rates s of None \<Rightarrow> False | Some v \<Rightarrow> is_tuple2 v)
           (map fst rates)
      then Inr (Anisotropic rates)
      else Inl (ValueError Bad_species_rates))"

text \<open>
  The arguments of a call. \<^verbatim>\<open>_flip_tuple\<close> is declared in the class body with the single
  parameter \<^verbatim>\<open>t\<close>; it is called as \<^verbatim>\<open>self._flip_tuple(x)\<close>, and a call through the instance
  passes the instance first. A call with any number of arguments but one is a
  \<open>TypeError\<close>; so is indexing something that is not a tuple.
\<close>

datatype pyarg = Instance connection | Value rate

fun flip_tuple :: "pyarg list \<Rightarrow> error + rate" where
  "flip_tuple [Value (Tuple t)] =
     (if 1 < length t then Inr (Tuple [t ! 1, t ! 0]) else Inl IndexError)"
| "flip_tuple [t] = Inl TypeError"
| "flip_tuple args = Inl TypeError"

fun reverse_loop ::
  "connection \<Rightarrow> (species_id \<times> rate) list \<Rightarrow> species_id list \<Rightarrow>
     (species_id \<times> rate) list \<Rightarrow> error + (species_id \<times> rate) list" where
  "reverse_loop self rates [] rev_species_rates = Inr rev_species_rates"
| "reverse_loop self rates (s # ss) rev_species_rates =
     (case map_of rates s of
        None \<Rightarrow> Inl KeyError
      | Some v \<Rightarrow>
          bind_err (flip_tuple [Instance self, Value v])
            (\<lambda>t. reverse_loop self rates ss (AList.update s t rev_species_rates)))"

definition reverse :: "connection \<Rightarrow> error + connection" where
  "reverse self =
     (case self of
        Anisotropic rates \<Rightarrow>
          bind_err (reverse_loop self rates (map fst rates) []) AnisotropicConnection_init
      | Isotropic rates \<Rightarrow> Inl (AttributeError ''reverse'')
      | Ficks a \<Rightarrow> Inl (AttributeError ''reverse''))"

text \<open>
  \<^verbatim>\<open>IsotropicConnection.__init__\<close>: every value that is not a tuple becomes the pair of
  itself with itself; a tuple is kept as it is.
\<close>

definition IsotropicConnection_init :: "(species_id \<times> rate) list \<Rightarrow> connection" where
  "IsotropicConnection_init rates =
     Isotropic (map (\<lambda>(s, v). (s, case v of Scalar k \<Rightarrow> Tuple [k, k] | Tuple t \<Rightarrow> Tuple t)) rates)"

text \<open>
  \<^verbatim>\<open>FicksConnection\<close>: the diffusion constants of the species, and the surface area and
  the distance between the compartment centers, \<open>None\<close> while they are not bound.
\<close>

record ficks =
  species_d_constants :: "(species_id \<times> number) list"
  surface_area :: "number option"
  ic_distance :: "number option"

text \<open>
  \<^verbatim>\<open>ito(liter/sec)\<close> of the unit library expresses a rate in liter per second. The numbers
  of the model are magnitudes in units that are coherent with the liter and the second,
  on which the conversion changes nothing.
\<close>

definition ito_liter_per_sec :: "numeric \<Rightarrow> numeric" where
  "ito_liter_per_sec k = k"

fun resolve_loop ::
  "number \<Rightarrow> number \<Rightarrow> (species_id \<times> number) list \<Rightarrow> (species_id \<times> rate) list \<Rightarrow>
     error + (species_id \<times> rate) list" where
  "resolve_loop A dx [] rates = Inr rates"
| "resolve_loop A dx ((s, d) # items) rates =
     bind_err (py_div (Num (py_mul d A)) dx) (\<lambda>k.
       resolve_loop A dx items (AList.update s (Scalar (ito_liter_per_sec k)) rates))"

definition resolve :: "ficks \<Rightarrow> error + connection" where
  "resolve self =
     (case surface_area self of
        None \<Rightarrow> Inl (ValueError Not_ready_to_resolve)
      | Some A \<Rightarrow>
          (case ic_distance self of
             None \<Rightarrow> Inl (ValueError Not_ready_to_resolve)
           | Some dx \<Rightarrow>
               bind_err (resolve_loop A dx (species_d_constants self) [])
                 (\<lambda>rates. Inr (IsotropicConnection_init rates))))"

subsection \<open>Reactions and compartments\<close>

text \<open>
  The classes \<^verbatim>\<open>Reaction\<close>, \<^verbatim>\<open>Species\<close>, \<^verbatim>\<open>Compartment\<close> and the compartment arrays are
  used by the code below through their attributes only, which are the fields here. A
  species is held by its \<^verbatim>\<open>ID\<close>. A compartment's \<^verbatim>\<open>pos\<close> lists, for each axis, the lower
  and the upper bound of its box; the code compares, adds and squares them and never
  divides by them, so they are held by their magnitudes. Its \<^verbatim>\<open>surface_area\<close> dictionary
  has the face names \<^verbatim>\<open>'yz'\<close>, \<^verbatim>\<open>'xz'\<close>, \<^verbatim>\<open>'xy'\<close> as keys. Its \<^verbatim>\<open>connections\<close> dictionary maps the ID of a
  neighbour to the pair of the neighbour and the connection; the model keeps the
  connection, and the neighbour is the compartment that the flat model stores under
  that ID.
\<close>

record reaction =
  reactants :: "species_id list"
  products :: "species_id list"
  stoich_r :: "int list"
  stoich_p :: "int list"
  kf :: number
  kr :: number
  reactant_IDs :: "species_id list"
  product_IDs :: "species_id list"

record compartment =
  cID :: comp_id
  array_ID :: "string option"
  volume :: number
  pos :: "(real \<times> real) list"
  surface_area_c :: "(string \<times> number) list"
  reactions :: "reaction list"
  connections :: "(comp_id \<times> connection) list"

record compartment_array =
  array_compartments :: "(comp_id \<times> compartment) list"

subsection \<open>model.py\<close>

record model =
  compartments :: "(comp_id \<times> compartment) list"
  arrays :: "(string \<times> compartment_array) list"
  periodic :: "bool list option"
  box_len :: "real list option"

text \<open>
  \<^verbatim>\<open>Model.add_compartment\<close>. The result is the model as the call leaves it, and the
  exception the call raised, if any. The assignment of the last line reads the
  attribute \<^verbatim>\<open>comparments\<close>, which no \<^verbatim>\<open>Model\<close> has.
\<close>

definition Model_add_compartment :: "model \<Rightarrow> compartment \<Rightarrow> model \<times> error option" where
  "Model_add_compartment self compartment =
     (if cID compartment \<in> set (map fst (compartments self))
      then (self, Some (ValueError (Duplicate_compartment_ID (cID compartment))))
      else (self, Some (AttributeError ''comparments'')))"

text \<open>The object \<^verbatim>\<open>FlatModel\<close> has the one attribute \<^verbatim>\<open>compartments\<close>.\<close>

type_synonym flatmodel = "(comp_id \<times> compartment) list"

text \<open>
  Modelled from the spec: \<^verbatim>\<open>makeID\<close> (\<^verbatim>\<open>openrxn/compartments/ID.py\<close>), whose source is
  not at hand. The identifier of a compartment of an array is \<^verbatim>\<open>{array_ID}-{compartment_ID_string}\<close>,
  and the compartment's own ID when it belongs to no array. The ID of a compartment is
  held in its printed form (the elements of an ID tuple joined by underscores).
\<close>

definition makeID :: "string option \<Rightarrow> comp_id \<Rightarrow> comp_id" where
  "makeID a i = (case a of None \<Rightarrow> i | Some array_id \<Rightarrow> array_id @ ''-'' @ i)"

text \<open>
  Modelled from the spec: \<^verbatim>\<open>Compartment.copy\<close> and \<^verbatim>\<open>Compartment.connect\<close>
  (\<^verbatim>\<open>openrxn/compartments/compartment.py\<close>), whose source is not at hand. A flat model owns copies
  of the compartments, detached from the array and keyed by the flattened ID; the copy
  keeps the volume, the box, the reactions and the connections. \<^verbatim>\<open>connect\<close> stores the
  connection of a compartment to a neighbour under the neighbour's ID, replacing the
  one that may be there.
\<close>

definition copy :: "compartment \<Rightarrow> comp_id \<Rightarrow> compartment" where
  "copy c newID = c\<lparr>cID := newID, array_ID := None\<rparr>"

definition connect :: "compartment \<Rightarrow> compartment \<Rightarrow> connection \<Rightarrow> compartment" where
  "connect self other conn =
     self\<lparr>connections := AList.update (cID other) conn (connections self)\<rparr>"

definition FlatModel_add_compartment :: "flatmodel \<Rightarrow> compartment \<Rightarrow> error + flatmodel" where
  "FlatModel_add_compartment fm compartment =
     (let newID = makeID (array_ID compartment) (cID compartment)
      in if newID \<in> set (map fst fm)
         then Inl (ValueError (Duplicate_compartment_ID newID))
         else Inr (fm @ [(newID, copy compartment newID)]))"

fun add_compartments :: "flatmodel \<Rightarrow> compartment list \<Rightarrow> error + flatmodel" where
  "add_compartments fm [] = Inr fm"
| "add_compartments fm (c # cs) =
     bind_err (FlatModel_add_compartment fm c) (\<lambda>fm'. add_compartments fm' cs)"

definition find_missing_compartments :: "flatmodel \<Rightarrow> comp_id list" where
  "find_missing_compartments fm =
     concat (map (\<lambda>(k, c). filter (\<lambda>nbor. nbor \<notin> set (map fst fm)) (map fst (connections c))) fm)"

text \<open>The geometry of \<^verbatim>\<open>Model.resolve_ficks\<close>.\<close>

definition adjoining :: "(real \<times> real) list \<Rightarrow> (real \<times> real) list \<Rightarrow> nat \<Rightarrow> error + bool" where
  "adjoining pos1 pos2 i =
     bind_err (item pos1 i) (\<lambda>a. bind_err (item pos2 i) (\<lambda>b.
       Inr (snd a = fst b \<or> fst a = snd b)))"

definition min_face :: "compartment \<Rightarrow> compartment \<Rightarrow> string \<Rightarrow> error + number" where
  "min_face c1 c2 k =
     bind_err (getitem (surface_area_c c1) k) (\<lambda>a.
     bind_err (getitem (surface_area_c c2) k) (\<lambda>b. Inr (py_min a b)))"

definition compute_surface_area :: "compartment \<Rightarrow> compartment \<Rightarrow> error + number" where
  "compute_surface_area c1 c2 =
     bind_err (adjoining (pos c1) (pos c2) 0) (\<lambda>x.
       if x then min_face c1 c2 ''yz''
       else bind_err (adjoining (pos c1) (pos c2) 1) (\<lambda>y.
         if y then min_face c1 c2 ''xz''
         else bind_err (adjoining (pos c1) (pos c2) 2) (\<lambda>z.
           if z then min_face c1 c2 ''xy''
           else Inl (ValueError No_adjoining_face))))"

definition center_difference ::
  "(real \<times> real) list \<Rightarrow> (real \<times> real) list \<Rightarrow> nat \<Rightarrow> error + real" where
  "center_difference pos1 pos2 i =
     bind_err (item pos1 i) (\<lambda>a. bind_err (item pos2 i) (\<lambda>b.
       Inr (0.5 * (fst a + snd a) - 0.5 * (fst b + snd b))))"

definition subscript :: "'a list option \<Rightarrow> nat \<Rightarrow> error + 'a" where
  "subscript xs i =
     (case xs of
        None \<Rightarrow> Inl TypeError
      | Some l \<Rightarrow> if i < length l then Inr (l ! i) else Inl IndexError)"

definition wrap :: "model \<Rightarrow> nat \<Rightarrow> real \<Rightarrow> error + real" where
  "wrap self i dc =
     bind_err (subscript (periodic self) i) (\<lambda>p.
       if p
       then bind_err (subscript (box_len self) i) (\<lambda>L.
              Inr (if dc * 2 < - L then dc + L else if dc * 2 > L then dc - L else dc))
       else Inr dc)"

fun distance_loop :: "model \<Rightarrow> nat \<Rightarrow> real list \<Rightarrow> real \<Rightarrow> error + real" where
  "distance_loop self i [] acc = Inr acc"
| "distance_loop self i (dc # d) acc =
     bind_err (wrap self i dc) (\<lambda>w. distance_loop self (Suc i) d (acc + w\<^sup>2))"

text \<open>The distance is what \<^verbatim>\<open>np.sqrt\<close> returns: a numpy float.\<close>

definition compute_ic_distance :: "model \<Rightarrow> compartment \<Rightarrow> compartment \<Rightarrow> error + number" where
  "compute_ic_distance self c1 c2 =
     bind_err (center_difference (pos c1) (pos c2) 0) (\<lambda>d0.
     bind_err (center_difference (pos c1) (pos c2) 1) (\<lambda>d1.
     bind_err (center_difference (pos c1) (pos c2) 2) (\<lambda>d2.
     bind_err (distance_loop self 0 [d0, d1, d2] 0) (\<lambda>s. Inr (Np (sqrt s))))))"

text \<open>
  The two blocks of \<^verbatim>\<open>resolve_ficks\<close> that bind the surface area and the distance of the
  connection when they are \<open>None\<close>: the connection object after them.
\<close>

definition bind_geometry :: "model \<Rightarrow> compartment \<Rightarrow> compartment \<Rightarrow> ficks \<Rightarrow> error + ficks" where
  "bind_geometry self c1 c2 conn =
     bind_err
       (case surface_area conn of
          None \<Rightarrow> bind_err (compute_surface_area c1 c2) (\<lambda>a. Inr (conn\<lparr>surface_area := Some a\<rparr>))
        | Some a \<Rightarrow> Inr conn)
       (\<lambda>conn1.
          case ic_distance conn1 of
            None \<Rightarrow> bind_err (compute_ic_distance self c1 c2)
                      (\<lambda>d. Inr (conn1\<lparr>ic_distance := Some d\<rparr>))
          | Some d \<Rightarrow> Inr conn1)"

text \<open>
  \<^verbatim>\<open>resolve_ficks\<close> works on objects: the two compartments of the flat model, named here
  by their keys, and the connection object at address \<open>a\<close> of the store. It leaves the
  connection object with its geometry bound and both compartments connected by the
  resolved connection.
\<close>

type_synonym store = "addr \<Rightarrow> ficks"

definition resolve_ficks ::
  "model \<Rightarrow> comp_id \<Rightarrow> comp_id \<Rightarrow> addr \<Rightarrow> store \<times> flatmodel \<Rightarrow> error + store \<times> flatmodel" where
  "resolve_ficks self k1 k2 a s =
     (case map_of (snd s) k1 of
        None \<Rightarrow> Inl KeyError
      | Some c1 \<Rightarrow>
          (case map_of (snd s) k2 of
             None \<Rightarrow> Inl KeyError
           | Some c2 \<Rightarrow>
               bind_err (bind_geometry self c1 c2 (fst s a)) (\<lambda>conn.
               bind_err (resolve conn) (\<lambda>new_conn.
                 let c1' = connect c1 c2 new_conn;
                     fm1 = AList.update k1 c1' (snd s)
                 in case map_of fm1 k2 of
                      None \<Rightarrow> Inl KeyError
                    | Some c2' \<Rightarrow>
                        Inr ((fst s)(a := conn),
                             AList.update k2 (connect c2' c1' new_conn) fm1)))))"

text \<open>
  The two loops of \<^verbatim>\<open>flatten\<close> that resolve the Ficks connections: the outer one over the
  compartments of the flat model, the inner one over the connections of a compartment.
  While they run, no dictionary that is being iterated gets or loses a key: a flat
  compartment is stored under its own ID, so \<^verbatim>\<open>connect\<close> replaces the connection under
  the label at hand and changes the dictionary of the neighbour only. The loops
  therefore run over the keys as they are when the loop starts, and read the
  connection of a key when its turn comes.
\<close>

fun resolve_connections ::
  "model \<Rightarrow> comp_id \<Rightarrow> comp_id list \<Rightarrow> store \<times> flatmodel \<Rightarrow> error + store \<times> flatmodel" where
  "resolve_connections self k [] s = Inr s"
| "resolve_connections self k (label # labels) s =
     (case map_of (snd s) k of
        None \<Rightarrow> Inl KeyError
      | Some c \<Rightarrow>
          (case map_of (connections c) label of
             Some (Ficks a) \<Rightarrow>
               bind_err (resolve_ficks self k label a s) (resolve_connections self k labels)
           | _ \<Rightarrow> resolve_connections self k labels s))"

fun resolve_compartments ::
  "model \<Rightarrow> comp_id list \<Rightarrow> store \<times> flatmodel \<Rightarrow> error + store \<times> flatmodel" where
  "resolve_compartments self [] s = Inr s"
| "resolve_compartments self (k # ks) s =
     (case map_of (snd s) k of
        None \<Rightarrow> Inl KeyError
      | Some c \<Rightarrow>
          bind_err (resolve_connections self k (map fst (connections c)) s)
            (resolve_compartments self ks))"

text \<open>The compartments a model hands to the flat model, in the order of \<^verbatim>\<open>flatten\<close>.\<close>

definition all_compartments :: "model \<Rightarrow> compartment list" where
  "all_compartments self =
     map snd (compartments self) @ concat (map (\<lambda>(n, a). map snd (array_compartments a)) (arrays self))"

fun add_arrays :: "flatmodel \<Rightarrow> compartment_array list \<Rightarrow> error + flatmodel" where
  "add_arrays fm [] = Inr fm"
| "add_arrays fm (a # as) =
     bind_err (add_compartments fm (map snd (array_compartments a))) (\<lambda>fm'. add_arrays fm' as)"

definition flat_namespace :: "model \<Rightarrow> error + flatmodel" where
  "flat_namespace self =
     bind_err (add_compartments [] (map snd (compartments self)))
       (\<lambda>fm. add_arrays fm (map snd (arrays self)))"

definition flatten :: "model \<Rightarrow> store \<Rightarrow> error + store \<times> flatmodel" where
  "flatten self st =
     bind_err (flat_namespace self) (\<lambda>flatmodel.
       let missing = find_missing_compartments flatmodel
       in if length missing > 0
          then Inl (ValueError (Missing_compartments missing))
          else resolve_compartments self (map fst flatmodel) (st, flatmodel))"

subsection \<open>systems/ODESystem.py\<close>

text \<open>
  The classes \<^verbatim>\<open>State\<close>, \<^verbatim>\<open>System\<close> and \<^verbatim>\<open>DerivFuncBuilder\<close> are used through their
  attributes: the state has its size, the compartment ID and the species ID of every
  position, the nested dictionary \<^verbatim>\<open>index[compartment_id][species_id]\<close> and the array
  \<^verbatim>\<open>q_val\<close>, which holds magnitudes; a builder holds the two lists of terms it was made
  from. A term is a rate constant with the list of the state positions it multiplies.
\<close>

record state =
  state_size :: nat
  state_compartment :: "comp_id list"
  state_species :: "species_id list"
  state_index :: "(comp_id \<times> (species_id \<times> nat) list) list"
  q_val :: "real list"

type_synonym terms = "(numeric \<times> nat list) list"

record deriv_func_builder =
  sources :: terms
  sinks :: terms

record system =
  sys_model :: flatmodel
  sys_state :: state

definition NA :: real where
  "NA = 6.022 * 10 ^ 23"

text \<open>
  The argument \<^verbatim>\<open>Q\<close> of \<^verbatim>\<open>set_q\<close>: a bare number, or a quantity, which has a magnitude
  and the attribute \<^verbatim>\<open>units\<close>. The code compares the units with three units of the
  registry; units are held by their names.
\<close>

type_synonym units = string

datatype quantity_arg = Number real | Quantity real units

definition unit_mol_per_L :: units where
  "unit_mol_per_L = ''mole / liter''"

definition unit_mol :: units where
  "unit_mol = ''mole''"

definition unit_dimensionless :: units where
  "unit_dimensionless = ''dimensionless''"

text \<open>The position that the index \<open>i\<close> addresses in a sequence; a negative index counts from its end.\<close>

definition py_index :: "'a list \<Rightarrow> int \<Rightarrow> error + nat" where
  "py_index xs i =
     (if 0 \<le> i \<and> i < int (length xs) then Inr (nat i)
      else if - int (length xs) \<le> i \<and> i < 0 then Inr (nat (int (length xs) + i))
      else Inl IndexError)"

fun set_q_loop ::
  "system \<Rightarrow> bool \<Rightarrow> bool \<Rightarrow> real \<Rightarrow> int list \<Rightarrow> real list \<Rightarrow> error + real list" where
  "set_q_loop self mult_volume mult_na Q [] q = Inr q"
| "set_q_loop self mult_volume mult_na Q (i # idxs) q =
     bind_err
       (if mult_volume
        then bind_err (py_index (state_compartment (sys_state self)) i) (\<lambda>j.
               case map_of (sys_model self) (state_compartment (sys_state self) ! j) of
                 None \<Rightarrow> Inl KeyError
               | Some c \<Rightarrow> Inr (magnitude (volume c) * Q))
        else Inr Q)
       (\<lambda>tmp0.
          let tmp = (if mult_na then tmp0 * NA else tmp0)
          in bind_err (py_index q i) (\<lambda>j.
               set_q_loop self mult_volume mult_na Q idxs (q[j := tmp])))"

definition set_q :: "system \<Rightarrow> int list \<Rightarrow> quantity_arg \<Rightarrow> error + system" where
  "set_q self idxs Q =
     bind_err
       (case Q of
          Quantity x u \<Rightarrow>
            if u = unit_mol_per_L then Inr (True, True, x)
            else if u = unit_mol then Inr (False, True, x)
            else if u \<noteq> unit_dimensionless then Inl (ValueError Bad_quantity_units)
            else Inr (False, False, x)
        | Number x \<Rightarrow> Inr (False, False, x))
       (\<lambda>(mult_volume, mult_na, x).
          bind_err (set_q_loop self mult_volume mult_na x idxs (q_val (sys_state self)))
            (\<lambda>q. Inr (self\<lparr>sys_state := (sys_state self)\<lparr>q_val := q\<rparr>\<rparr>)))"

text \<open>\<^verbatim>\<open>_build_dqdt\<close>.\<close>

definition tuple_item :: "rate \<Rightarrow> nat \<Rightarrow> error + numeric" where
  "tuple_item v i = (case v of Scalar k \<Rightarrow> Inl TypeError | Tuple t \<Rightarrow> item t i)"

definition lookup_index :: "state \<Rightarrow> comp_id \<Rightarrow> species_id \<Rightarrow> error + nat" where
  "lookup_index st c s = bind_err (getitem (state_index st) c) (\<lambda>m. getitem m s)"

text \<open>
  The loop \<^verbatim>\<open>for j,x in enumerate(...)\<close> that collects \<^verbatim>\<open>q_list\<close> and the order \<^verbatim>\<open>n_r\<close>
  (or \<^verbatim>\<open>n_p\<close>) of a direction of a reaction. The list \<^verbatim>\<open>[p]*m\<close> is empty for \<open>m \<le> 0\<close>.
\<close>

fun q_list_loop ::
  "state \<Rightarrow> comp_id \<Rightarrow> int list \<Rightarrow> nat \<Rightarrow> species_id list \<Rightarrow> nat list \<times> int \<Rightarrow>
     error + nat list \<times> int" where
  "q_list_loop st c stoich j [] acc = Inr acc"
| "q_list_loop st c stoich j (x # xs) acc =
     bind_err (lookup_index st c x) (\<lambda>p.
     bind_err (item stoich j) (\<lambda>m.
       q_list_loop st c stoich (Suc j) xs (fst acc @ replicate (nat m) p, snd acc + m)))"

text \<open>
  The term of one direction of a reaction. The source has this block four times, for
  the forward and the reverse direction of a reaction that consumes or produces the
  species; the four differ in the rate constant, the species list and the list the
  term is appended to.
\<close>

definition reaction_term ::
  "state \<Rightarrow> compartment \<Rightarrow> number \<Rightarrow> species_id list \<Rightarrow> int list \<Rightarrow> error + numeric \<times> nat list" where
  "reaction_term st c k xs stoich =
     bind_err (q_list_loop st (cID c) stoich 0 xs ([], 0)) (\<lambda>(q_list, n).
       if n - 1 > 0
       then bind_err (py_div (Num k) (py_pow (volume c) (nat (n - 1)))) (\<lambda>rate. Inr (rate, q_list))
       else Inr (Num k, q_list))"

definition append_term :: "bool \<Rightarrow> error + numeric \<times> nat list \<Rightarrow> terms \<Rightarrow> error + terms" where
  "append_term guard t ts = (if guard then bind_err t (\<lambda>x. Inr (ts @ [x])) else Inr ts)"

definition reaction_step ::
  "state \<Rightarrow> compartment \<Rightarrow> species_id \<Rightarrow> reaction \<Rightarrow> terms \<times> terms \<Rightarrow> error + terms \<times> terms" where
  "reaction_step st c s r acc =
     (if s \<in> set (reactant_IDs r)
      then bind_err (append_term (magnitude (kf r) > 0)
                       (reaction_term st c (kf r) (reactants r) (stoich_r r)) (snd acc)) (\<lambda>sinks'.
           bind_err (append_term (magnitude (kr r) > 0)
                       (reaction_term st c (kr r) (products r) (stoich_p r)) (fst acc)) (\<lambda>sources'.
             Inr (sources', sinks')))
      else if s \<in> set (product_IDs r)
      then bind_err (append_term (magnitude (kf r) > 0)
                       (reaction_term st c (kf r) (reactants r) (stoich_r r)) (fst acc)) (\<lambda>sources'.
           bind_err (append_term (magnitude (kr r) > 0)
                       (reaction_term st c (kr r) (products r) (stoich_p r)) (snd acc)) (\<lambda>sinks'.
             Inr (sources', sinks')))
      else Inr acc)"

definition connection_step ::
  "system \<Rightarrow> compartment \<Rightarrow> species_id \<Rightarrow> nat \<Rightarrow> comp_id \<times> connection \<Rightarrow> terms \<times> terms \<Rightarrow>
     error + terms \<times> terms" where
  "connection_step self c s i entry acc =
     bind_err (species_rates (snd entry)) (\<lambda>rates.
       case map_of rates s of
         None \<Rightarrow> Inr acc
       | Some v \<Rightarrow>
           bind_err (tuple_item v 0) (\<lambda>k_out.
           bind_err (py_div k_out (volume c)) (\<lambda>rate_out.
           bind_err (tuple_item v 1) (\<lambda>k_in.
           bind_err (getitem (sys_model self) (fst entry)) (\<lambda>neighbour.
           bind_err (py_div k_in (volume neighbour)) (\<lambda>rate_in.
           bind_err (lookup_index (sys_state self) (fst entry) s) (\<lambda>p.
             Inr (fst acc @ [(rate_in, [p])], snd acc @ [(rate_out, [i])]))))))))"

definition builder_at :: "system \<Rightarrow> nat \<Rightarrow> error + deriv_func_builder" where
  "builder_at self i =
     bind_err (item (state_compartment (sys_state self)) i) (\<lambda>cid.
     bind_err (getitem (sys_model self) cid) (\<lambda>c.
     bind_err (item (state_species (sys_state self)) i) (\<lambda>s.
     bind_err (foldE (reaction_step (sys_state self) c s) (reactions c) ([], [])) (\<lambda>acc.
     bind_err (foldE (connection_step self c s i) (connections c) acc) (\<lambda>acc'.
       Inr \<lparr>sources = fst acc', sinks = snd acc'\<rparr>)))))"

definition build_dqdt :: "system \<Rightarrow> error + deriv_func_builder list" where
  "build_dqdt self =
     foldE (\<lambda>i dqdt. bind_err (builder_at self i) (\<lambda>b. Inr (dqdt @ [b])))
       [0..<state_size (sys_state self)] []"

subsection \<open>What the specification says, for comparison\<close>

text \<open>
  The quotient of a rate constant by a number that is not zero: a numpy float as soon
  as an operand is one.
\<close>

definition ratio :: "numeric \<Rightarrow> number \<Rightarrow> numeric" where
  "ratio k v =
     (case k of
        Num a \<Rightarrow> Num (result_of [a, v] (magnitude a / magnitude v))
      | Inf_or_nan \<Rightarrow> Inf_or_nan)"




text \<open>
  Two compartments touch along axis \<open>i\<close> when the upper bound of one box is the lower bound
  of the other. The face that \<^verbatim>\<open>resolve_ficks\<close> selects belongs to the first axis, in the
  order x, y, z, along which they touch. The distance of a connection can be had when
  it is bound and not a Python zero, or when it is not bound and the model has the
  periodicity and the box length of three axes.
\<close>

definition touching :: "compartment \<Rightarrow> compartment \<Rightarrow> nat \<Rightarrow> bool" where
  "touching c1 c2 i =
     (snd (pos c1 ! i) = fst (pos c2 ! i) \<or> fst (pos c1 ! i) = snd (pos c2 ! i))"

definition first_touching_face :: "compartment \<Rightarrow> compartment \<Rightarrow> string" where
  "first_touching_face c1 c2 =
     (if touching c1 c2 0 then ''yz'' else if touching c1 c2 1 then ''xz'' else ''xy'')"

definition distance_at_hand :: "model \<Rightarrow> ficks \<Rightarrow> bool" where
  "distance_at_hand self conn =
     (case ic_distance conn of
        Some dx \<Rightarrow> magnitude dx \<noteq> 0 \<or> is_numpy dx
      | None \<Rightarrow>
          (case periodic self of
             None \<Rightarrow> False
           | Some ps \<Rightarrow>
               (case box_len self of
                  None \<Rightarrow> False
                | Some ls \<Rightarrow> 3 \<le> length ps \<and> 3 \<le> length ls)))"

text \<open>
  The center of a box along an axis; a displacement moved by one box length towards
  zero when it is longer than half the box length; the displacement of the centers of
  two compartments along an axis, moved so when the axis is periodic.
\<close>

definition center :: "compartment \<Rightarrow> nat \<Rightarrow> real" where
  "center c i = 0.5 * (fst (pos c ! i) + snd (pos c ! i))"

definition shift_image :: "real \<Rightarrow> real \<Rightarrow> real" where
  "shift_image L d = (if d * 2 < - L then d + L else if d * 2 > L then d - L else d)"

definition displacement :: "bool list \<Rightarrow> real list \<Rightarrow> compartment \<Rightarrow> compartment \<Rightarrow> nat \<Rightarrow> real" where
  "displacement ps ls c1 c2 i =
     (if ps ! i then shift_image (ls ! i) (center c1 i - center c2 i)
      else center c1 i - center c2 i)"

text \<open>
  The count that \<^verbatim>\<open>set_q\<close> is to store at position \<open>j\<close> of the state: the concentration
  times the volume of the compartment of that position times the Avogadro constant, the
  molar amount times the Avogadro constant, or the bare number; no count for other
  units. The inputs that the code accepts are the bare numbers and the quantities in
  one of the three units it compares with. A position is addressed when an index of
  the list stands for it.
\<close>

definition count_of :: "system \<Rightarrow> quantity_arg \<Rightarrow> nat \<Rightarrow> real option" where
  "count_of self Q j =
     (case Q of
        Number x \<Rightarrow> Some x
      | Quantity x u \<Rightarrow>
          if u = unit_mol_per_L
          then map_option (\<lambda>c. x * magnitude (volume c) * NA)
                 (map_of (sys_model self) (state_compartment (sys_state self) ! j))
          else if u = unit_mol then Some (x * NA)
          else if u = unit_dimensionless then Some x
          else None)"

definition accepted :: "quantity_arg \<Rightarrow> bool" where
  "accepted Q =
     (case Q of
        Number x \<Rightarrow> True
      | Quantity x u \<Rightarrow> u = unit_mol_per_L \<or> u = unit_mol \<or> u = unit_dimensionless)"

definition addressed :: "real list \<Rightarrow> int list \<Rightarrow> nat \<Rightarrow> bool" where
  "addressed q idxs j = list_ex (\<lambda>i. py_index q i = Inr j) idxs"

text \<open>
  Units of the registry of the unit library in which a concentration can be given.
\<close>

definition concentration_units :: "units list" where
  "concentration_units =
     [''mole / liter'', ''millimole / liter'', ''molar'', ''mole / meter ** 3'']"

text \<open>
  The value that the loop of \<^verbatim>\<open>set_q\<close> computes for position \<open>j\<close>, from its two flags.
\<close>

definition loop_value :: "system \<Rightarrow> bool \<Rightarrow> bool \<Rightarrow> real \<Rightarrow> nat \<Rightarrow> real option" where
  "loop_value self mult_volume mult_na x j =
     map_option (\<lambda>t. if mult_na then t * NA else t)
       (if mult_volume
        then map_option (\<lambda>c. magnitude (volume c) * x)
               (map_of (sys_model self) (state_compartment (sys_state self) ! j))
        else Some x)"

text \<open>
  The position of a species of a compartment in the state:
  \<^verbatim>\<open>index[compartment_id][species_id]\<close>.
\<close>

definition index_of :: "state \<Rightarrow> comp_id \<Rightarrow> species_id \<Rightarrow> nat" where
  "index_of st c x = (case lookup_index st c x of Inl e \<Rightarrow> 0 | Inr p \<Rightarrow> p)"

text \<open>
  The term of one direction of a reaction, with rate constant \<open>k\<close>, species \<open>xs\<close> and
  stoichiometric coefficients \<open>stoich\<close>, in a compartment of volume \<open>V\<close>: its order \<open>n\<close> is
  the sum of the coefficients, its rate constant is \<open>k / V^(n-1)\<close> when \<open>n > 1\<close> and \<open>k\<close>
  otherwise, and its index list repeats the state index of every species as often as
  its coefficient says.
\<close>

definition order_of :: "species_id list \<Rightarrow> int list \<Rightarrow> int" where
  "order_of xs stoich = sum_list (take (length xs) stoich)"

definition mass_action_term ::
  "state \<Rightarrow> compartment \<Rightarrow> number \<Rightarrow> species_id list \<Rightarrow> int list \<Rightarrow> numeric \<times> nat list" where
  "mass_action_term st c k xs stoich =
     (if 1 < order_of xs stoich
      then Num (result_of [k, volume c]
                  (magnitude k / magnitude (volume c) ^ nat (order_of xs stoich - 1)))
      else Num k,
      concat (map2 (\<lambda>x m. replicate (nat m) (index_of st (cID c) x)) xs stoich))"

text \<open>
  The terms of a reaction for the species \<open>s\<close>: if \<open>s\<close> is a reactant, the forward direction
  is a sink and the reverse direction a source; if it is a product (and no reactant), the
  forward direction is a source and the reverse direction a sink. A direction whose rate
  constant is not positive is absent.
\<close>

definition reaction_sources :: "state \<Rightarrow> compartment \<Rightarrow> species_id \<Rightarrow> reaction \<Rightarrow> terms" where
  "reaction_sources st c s r =
     (if s \<in> set (reactant_IDs r)
      then (if 0 < magnitude (kr r) then [mass_action_term st c (kr r) (products r) (stoich_p r)] else [])
      else if s \<in> set (product_IDs r)
      then (if 0 < magnitude (kf r) then [mass_action_term st c (kf r) (reactants r) (stoich_r r)] else [])
      else [])"

definition reaction_sinks :: "state \<Rightarrow> compartment \<Rightarrow> species_id \<Rightarrow> reaction \<Rightarrow> terms" where
  "reaction_sinks st c s r =
     (if s \<in> set (reactant_IDs r)
      then (if 0 < magnitude (kf r) then [mass_action_term st c (kf r) (reactants r) (stoich_r r)] else [])
      else if s \<in> set (product_IDs r)
      then (if 0 < magnitude (kr r) then [mass_action_term st c (kr r) (products r) (stoich_p r)] else [])
      else [])"

text \<open>
  What a direction of a reaction needs for its term: a coefficient for every species, a
  state index for every species, and a volume that is not zero when the order exceeds
  1. A reaction in which \<open>s\<close> participates needs it for each of its directions with a
  positive rate constant.
\<close>

definition direction_ok :: "state \<Rightarrow> compartment \<Rightarrow> species_id list \<Rightarrow> int list \<Rightarrow> bool" where
  "direction_ok st c xs stoich =
     (length xs \<le> length stoich
      \<and> (\<forall>x \<in> set xs. lookup_index st (cID c) x = Inr (index_of st (cID c) x))
      \<and> (1 < order_of xs stoich \<longrightarrow> magnitude (volume c) \<noteq> 0))"

definition reaction_ok :: "state \<Rightarrow> compartment \<Rightarrow> species_id \<Rightarrow> reaction \<Rightarrow> bool" where
  "reaction_ok st c s r =
     (s \<in> set (reactant_IDs r) \<or> s \<in> set (product_IDs r) \<longrightarrow>
        (0 < magnitude (kf r) \<longrightarrow> direction_ok st c (reactants r) (stoich_r r))
      \<and> (0 < magnitude (kr r) \<longrightarrow> direction_ok st c (products r) (stoich_p r)))"

text \<open>
  The terms of a connection for the species \<open>s\<close> of position \<open>i\<close>: the connection is
  resolved when it has rates; it transports \<open>s\<close> when its rates have the key \<open>s\<close>;
  \<open>k_out\<close> and \<open>k_in\<close> are the two components of the rate pair of \<open>s\<close>; the volume of the
  neighbour is the volume of the compartment stored under the label of the connection.
\<close>

definition resolved :: "comp_id \<times> connection \<Rightarrow> bool" where
  "resolved e = (case species_rates (snd e) of Inl x \<Rightarrow> False | Inr rates \<Rightarrow> True)"

definition transports :: "species_id \<Rightarrow> comp_id \<times> connection \<Rightarrow> bool" where
  "transports s e =
     (case species_rates (snd e) of Inl x \<Rightarrow> False | Inr rates \<Rightarrow> map_of rates s \<noteq> None)"

definition k_out :: "connection \<Rightarrow> species_id \<Rightarrow> numeric" where
  "k_out conn s =
     (case species_rates conn of
        Inl x \<Rightarrow> Inf_or_nan
      | Inr rates \<Rightarrow> (case map_of rates s of Some (Tuple t) \<Rightarrow> t ! 0 | _ \<Rightarrow> Inf_or_nan))"

definition k_in :: "connection \<Rightarrow> species_id \<Rightarrow> numeric" where
  "k_in conn s =
     (case species_rates conn of
        Inl x \<Rightarrow> Inf_or_nan
      | Inr rates \<Rightarrow> (case map_of rates s of Some (Tuple t) \<Rightarrow> t ! 1 | _ \<Rightarrow> Inf_or_nan))"

definition neighbour_volume :: "system \<Rightarrow> comp_id \<Rightarrow> number" where
  "neighbour_volume self lab =
     (case map_of (sys_model self) lab of None \<Rightarrow> Py 0 | Some nb \<Rightarrow> volume nb)"

definition connection_sink ::
  "compartment \<Rightarrow> species_id \<Rightarrow> nat \<Rightarrow> comp_id \<times> connection \<Rightarrow> numeric \<times> nat list" where
  "connection_sink c s i e = (ratio (k_out (snd e) s) (volume c), [i])"

definition connection_source ::
  "system \<Rightarrow> species_id \<Rightarrow> comp_id \<times> connection \<Rightarrow> numeric \<times> nat list" where
  "connection_source self s e =
     (ratio (k_in (snd e) s) (neighbour_volume self (fst e)), [index_of (sys_state self) (fst e) s])"

text \<open>
  What a connection needs for its two terms: a rate pair for \<open>s\<close>, a volume of the
  compartment and of the neighbour that is not zero, and a state index of \<open>s\<close> in the
  neighbour.
\<close>

definition connection_ok :: "system \<Rightarrow> compartment \<Rightarrow> species_id \<Rightarrow> comp_id \<times> connection \<Rightarrow> bool" where
  "connection_ok self c s e =
     ((case species_rates (snd e) of
         Inl x \<Rightarrow> False
       | Inr rates \<Rightarrow> (case map_of rates s of Some (Tuple t) \<Rightarrow> 1 < length t | _ \<Rightarrow> False))
      \<and> magnitude (volume c) \<noteq> 0
      \<and> map_of (sys_model self) (fst e) \<noteq> None
      \<and> magnitude (neighbour_volume self (fst e)) \<noteq> 0
      \<and> lookup_index (sys_state self) (fst e) s
            = Inr (index_of (sys_state self) (fst e) s))"

text \<open>
  What \<^verbatim>\<open>_build_dqdt\<close> needs at a state position: the compartment and the species of the
  position, every reaction of the compartment as above, every connection of the
  compartment resolved and, when it transports the species, as above. A system is well
  formed when every position of its state has this.
\<close>

definition position_ok :: "system \<Rightarrow> nat \<Rightarrow> bool" where
  "position_ok self i =
     (i < length (state_compartment (sys_state self))
      \<and> i < length (state_species (sys_state self))
      \<and> (case map_of (sys_model self) (state_compartment (sys_state self) ! i) of
           None \<Rightarrow> False
         | Some c \<Rightarrow>
             list_all (reaction_ok (sys_state self) c (state_species (sys_state self) ! i))
               (reactions c)
             \<and> list_all (\<lambda>e. resolved e
                   \<and> (transports (state_species (sys_state self) ! i) e \<longrightarrow>
                        connection_ok self c (state_species (sys_state self) ! i) e))
                 (connections c)))"

definition well_formed :: "system \<Rightarrow> bool" where
  "well_formed self = list_all (position_ok self) [0..<state_size (sys_state self)]"

text \<open>
  The builder of position \<open>i\<close>, with compartment \<open>c\<close> and species \<open>s\<close>: its sources and its
  sinks are the terms of the reactions of \<open>c\<close>, in order, followed by one term for every
  connection of \<open>c\<close> that transports \<open>s\<close>, in order.
\<close>

definition builder_of :: "system \<Rightarrow> compartment \<Rightarrow> species_id \<Rightarrow> nat \<Rightarrow> deriv_func_builder" where
  "builder_of self c s i =
     \<lparr>sources = concat (map (reaction_sources (sys_state self) c s) (reactions c))
                 @ map (connection_source self s) (filter (transports s) (connections c)),
      sinks = concat (map (reaction_sinks (sys_state self) c s) (reactions c))
               @ map (connection_sink c s i) (filter (transports s) (connections c))\<rparr>"

definition expected_builder :: "system \<Rightarrow> nat \<Rightarrow> deriv_func_builder" where
  "expected_builder self i =
     (case map_of (sys_model self) (state_compartment (sys_state self) ! i) of
        None \<Rightarrow> \<lparr>sources = [], sinks = []\<rparr>
      | Some c \<Rightarrow> builder_of self c (state_species (sys_state self) ! i) i)"

text \<open>
  The flattened ID of a compartment of a model and the entry that the flat model holds
  for it; the IDs of the compartments of a flat model and its rate constants, which are
  the connections of its compartments.
\<close>

definition flat_ID :: "compartment \<Rightarrow> comp_id" where
  "flat_ID c = makeID (array_ID c) (cID c)"

definition flat_entry :: "compartment \<Rightarrow> comp_id \<times> compartment" where
  "flat_entry c = (flat_ID c, copy c (flat_ID c))"

definition compartment_IDs :: "flatmodel \<Rightarrow> comp_id set" where
  "compartment_IDs fm = set (map fst fm)"

definition rate_constants :: "flatmodel \<Rightarrow> (comp_id \<times> (comp_id \<times> connection) list) list" where
  "rate_constants fm = map (\<lambda>(k, c). (k, connections c)) fm"

subsection \<open>Stores of connection objects\<close>

text \<open>
  A store extends another when every connection object has the diffusion constants it
  had and every surface area and distance that was bound is still bound to the same
  value. A step of \<^verbatim>\<open>flatten\<close> is stable when it only extends the store and, run again
  from the same flat model in any store that extends the one it left, returns the same
  flat model and leaves that store as it is.
\<close>

definition extends :: "store \<Rightarrow> store \<Rightarrow> bool" where
  "extends st S =
     (\<forall>a. species_d_constants (S a) = species_d_constants (st a)
        \<and> (\<forall>x. surface_area (st a) = Some x \<longrightarrow> surface_area (S a) = Some x)
        \<and> (\<forall>x. ic_distance (st a) = Some x \<longrightarrow> ic_distance (S a) = Some x))"

definition stable :: "(store \<times> flatmodel \<Rightarrow> error + store \<times> flatmodel) \<Rightarrow> bool" where
  "stable f =
     (\<forall>st fm st1 fm1. f (st, fm) = Inr (st1, fm1) \<longrightarrow>
        extends st st1 \<and> (\<forall>S. extends st1 S \<longrightarrow> f (S, fm) = Inr (S, fm1)))"

subsection \<open>Observations and example inputs\<close>

text \<open>
  The magnitudes of the surface area and of the distance that a call of
  \<^verbatim>\<open>resolve_ficks\<close> leaves in the connection object at address \<open>a\<close>.
\<close>

definition bound_geometry :: "addr \<Rightarrow> error + store \<times> flatmodel \<Rightarrow> error + real option \<times> real option" where
  "bound_geometry a r =
     bind_err r (\<lambda>s. Inr (map_option magnitude (surface_area (fst s a)),
                          map_option magnitude (ic_distance (fst s a))))"

text \<open>
  A compartment that is a box with the given bounds, its volume and the areas of its
  faces, all Python numbers; a model without compartments; a Ficks connection of the
  species \<open>drug\<close> whose geometry, where it is bound, was given as Python numbers.
\<close>

definition box :: "comp_id \<Rightarrow> real \<times> real \<Rightarrow> real \<times> real \<Rightarrow> real \<times> real \<Rightarrow> (comp_id \<times> connection) list \<Rightarrow> compartment" where
  "box i x y z conns =
     \<lparr>cID = i, array_ID = None,
      volume = Py ((snd x - fst x) * (snd y - fst y) * (snd z - fst z)),
      pos = [x, y, z],
      surface_area_c = [(''yz'', Py ((snd y - fst y) * (snd z - fst z))),
                        (''xz'', Py ((snd x - fst x) * (snd z - fst z))),
                        (''xy'', Py ((snd x - fst x) * (snd y - fst y)))],
      reactions = [], connections = conns\<rparr>"

definition example_model :: "bool list \<Rightarrow> real list \<Rightarrow> model" where
  "example_model ps ls = \<lparr>compartments = [], arrays = [], periodic = Some ps, box_len = Some ls\<rparr>"

definition example_ficks :: "real option \<Rightarrow> real option \<Rightarrow> ficks" where
  "example_ficks A dx =
     \<lparr>species_d_constants = [(''drug'', Py 1)], surface_area = map_option Py A,
      ic_distance = map_option Py dx\<rparr>"

text \<open>The store in which every address holds a connection object with the same fields.\<close>

definition constant_store :: "ficks \<Rightarrow> store" where
  "constant_store f = (\<lambda>a. f)"

text \<open>
  A system of two compartments of volumes 1 and 2 with one species, connected by an
  isotropic connection.
\<close>

definition example_state :: state where
  "example_state =
     \<lparr>state_size = 2, state_compartment = [''a'', ''b''], state_species = [''drug'', ''drug''],
      state_index = [(''a'', [(''drug'', 0)]), (''b'', [(''drug'', 1)])], q_val = [0, 0]\<rparr>"

definition example_system :: system where
  "example_system =
     \<lparr>sys_model = [(''a'', box ''a'' (0, 1) (0, 1) (0, 1) [(''b'', Isotropic [(''drug'', Tuple [Num (Py 6), Num (Py 6)])])]),
                   (''b'', box ''b'' (1, 3) (0, 1) (0, 1) [(''a'', Isotropic [(''drug'', Tuple [Num (Py 6), Num (Py 6)])])])],
      sys_state = example_state\<rparr>"

text \<open>
  A system with the reaction \<open>drug + 2 receptor \<rightleftharpoons> complex\<close> in a compartment \<open>a\<close> of
  volume 2. An anisotropic connection takes \<open>drug\<close> from \<open>a\<close> to a compartment \<open>b\<close> of
  volume 3 with the rate 6 and back with the rate 4. The builders that \<^verbatim>\<open>_build_dqdt\<close>
  makes for its four state positions.
\<close>

definition binding :: reaction where
  "binding =
     \<lparr>reactants = [''drug'', ''receptor''], products = [''complex''],
      stoich_r = [1, 2], stoich_p = [1], kf = Py 12, kr = Py 2,
      reactant_IDs = [''drug'', ''receptor''], product_IDs = [''complex'']\<rparr>"

definition reacting_compartment :: compartment where
  "reacting_compartment =
     (box ''a'' (0, 2) (0, 1) (0, 1) [(''b'', Anisotropic [(''drug'', Tuple [Num (Py 6), Num (Py 4)])])])
       \<lparr>reactions := [binding]\<rparr>"

definition reacting_system :: system where
  "reacting_system =
     \<lparr>sys_model =
        [(''a'', reacting_compartment),
         (''b'', box ''b'' (2, 5) (0, 1) (0, 1)
                   [(''a'', Anisotropic [(''drug'', Tuple [Num (Py 4), Num (Py 6)])])])],
      sys_state =
        \<lparr>state_size = 4,
         state_compartment = [''a'', ''a'', ''a'', ''b''],
         state_species = [''drug'', ''receptor'', ''complex'', ''drug''],
         state_index = [(''a'', [(''drug'', 0), (''receptor'', 1), (''complex'', 2)]),
                        (''b'', [(''drug'', 3)])],
         q_val = [0, 0, 0, 0]\<rparr>\<rparr>"

definition reacting_dqdt :: "deriv_func_builder list" where
  "reacting_dqdt =
     [\<lparr>sources = [(Num (Py 2), [2]), (Num (Py (4 / 3)), [3])],
       sinks = [(Num (Py 3), [0, 1, 1]), (Num (Py 3), [0])]\<rparr>,
      \<lparr>sources = [(Num (Py 2), [2])], sinks = [(Num (Py 3), [0, 1, 1])]\<rparr>,
      \<lparr>sources = [(Num (Py 3), [0, 1, 1])], sinks = [(Num (Py 2), [2])]\<rparr>,
      \<lparr>sources = [(Num (Py 3), [0])], sinks = [(Num (Py (4 / 3)), [3])]\<rparr>]"

text \<open>
  A model of one array \<open>bulk\<close> of two unit boxes side by side along x; the first is
  connected to the second by the Ficks connection at address 0, and the connections of
  the second are a parameter. The connection object as \<^verbatim>\<open>flatten\<close> leaves it, with the
  surface area of a face and the distance that \<^verbatim>\<open>np.sqrt\<close> returned, and the flat model
  that \<^verbatim>\<open>flatten\<close> makes of the model when both compartments share that connection.
\<close>

definition array_member :: "comp_id \<Rightarrow> real \<times> real \<Rightarrow> (comp_id \<times> connection) list \<Rightarrow> compartment" where
  "array_member i x conns = (box i x (0, 1) (0, 1) conns)\<lparr>array_ID := Some ''bulk''\<rparr>"

definition slab_model :: "(comp_id \<times> connection) list \<Rightarrow> model" where
  "slab_model conns =
     \<lparr>compartments = [],
      arrays = [(''bulk'', \<lparr>array_compartments =
                  [(''0'', array_member ''0'' (0, 1) [(''bulk-1'', Ficks 0)]),
                   (''1'', array_member ''1'' (1, 2) conns)]\<rparr>)],
      periodic = Some [False, False, False], box_len = Some [2, 1, 1]\<rparr>"

definition slab_ficks :: ficks where
  "slab_ficks =
     \<lparr>species_d_constants = [(''drug'', Py 1)], surface_area = Some (Py 1),
      ic_distance = Some (Np 1)\<rparr>"

definition slab_flat :: flatmodel where
  "slab_flat =
     [(''bulk-0'', box ''bulk-0'' (0, 1) (0, 1) (0, 1)
         [(''bulk-1'', Isotropic [(''drug'', Tuple [Num (Np 1), Num (Np 1)])])]),
      (''bulk-1'', box ''bulk-1'' (1, 2) (0, 1) (0, 1)
         [(''bulk-0'', Isotropic [(''drug'', Tuple [Num (Np 1), Num (Np 1)])])])]"

section \<open>Properties\<close>

lemma bind_err_simps:
  "bind_err (Inl e) f = Inl e"
  "bind_err (Inr a) f = f a"
  by (simp_all add: bind_err_def)

lemma bind_err_Inr:
  "bind_err x f = Inr y \<Longrightarrow> \<exists>a. x = Inr a \<and> f a = Inr y"
  by (cases x) (simp_all add: bind_err_simps)

lemma ito_liter_per_sec_id [simp]: "ito_liter_per_sec k = k"
  by (simp add: ito_liter_per_sec_def)

lemma py_div_nonzero:
  "magnitude v \<noteq> 0 \<Longrightarrow> py_div k v = Inr (ratio k v)"
  by (cases k) (auto simp: ratio_def result_of_def)


subsection \<open>Anisotropic connections\<close>

text \<open>
  C9 claims that \<^verbatim>\<open>reverse()\<close> of an anisotropic connection returns the connection whose
  pair, for every species, is the original pair swapped. The code does not get there:
  \<^verbatim>\<open>_flip_tuple\<close> takes one parameter and is called through the instance, with two
  arguments. For the connection of the repository's example, with the rates
  \<open>(1e-5, 1e-1)\<close> for the one species \<open>drug\<close>, \<^verbatim>\<open>reverse()\<close> raises \<open>TypeError\<close>.
\<close>

theorem reverse_raises_TypeError:
  "reverse (Anisotropic [(''drug'', Tuple [Num (Py (1 / 100000)), Num (Py (1 / 10))])]) = Inl TypeError"
  by (simp add: reverse_def bind_err_simps)

text \<open>
  The same holds for every connection that has a species at all; only the connection
  without species is reversed.
\<close>

lemma reverse_nonempty:
  "rates \<noteq> [] \<Longrightarrow> reverse (Anisotropic rates) = Inl TypeError"
  by (cases rates) (auto simp: reverse_def bind_err_simps split: option.splits)

lemma reverse_empty:
  "reverse (Anisotropic []) = Inr (Anisotropic [])"
  by (simp add: reverse_def bind_err_simps AnisotropicConnection_init_def)

subsection \<open>Adding a compartment to a model\<close>

text \<open>
  C10: \<^verbatim>\<open>Model.add_compartment\<close> raises \<open>ValueError\<close> when the ID of the compartment is a
  key of the model's compartments, and \<open>AttributeError\<close> (for the attribute
  \<^verbatim>\<open>comparments\<close>) for every other ID; whichever it raises, the compartments of the
  model are afterwards what they were, so the compartment has not been added.
\<close>

theorem add_compartment_never_adds:
  "snd (Model_add_compartment self c) =
     Some (if cID c \<in> fst ` set (compartments self)
           then ValueError (Duplicate_compartment_ID (cID c))
           else AttributeError ''comparments'')
   \<and> compartments (fst (Model_add_compartment self c)) = compartments self"
  by (simp add: Model_add_compartment_def)

subsection \<open>Resolving a Ficks connection\<close>

lemma py_mul_simps:
  "magnitude (py_mul d A) = magnitude d * magnitude A"
  "is_numpy (py_mul d A) = (is_numpy d \<or> is_numpy A)"
  by (simp_all add: py_mul_def result_of_def)

lemma resolve_loop_nonzero:
  "magnitude dx \<noteq> 0 \<Longrightarrow> resolve_loop A dx items rates =
     Inr (foldl (\<lambda>r (s, d). AList.update s
            (Scalar (Num (result_of [d, A, dx] (magnitude d * magnitude A / magnitude dx)))) r)
          rates items)"
proof (induction items arbitrary: rates)
  case Nil
  then show ?case by simp
next
  case (Cons x items)
  obtain s d where x: "x = (s, d)" by (cases x)
  have "py_div (Num (py_mul d A)) dx =
      Inr (Num (result_of [d, A, dx] (magnitude d * magnitude A / magnitude dx)))"
    using Cons.prems by (simp add: py_mul_simps result_of_def)
  then show ?case using Cons x by (simp add: bind_err_simps)
qed

lemma resolve_loop_zero_numpy:
  "magnitude dx = 0 \<Longrightarrow> is_numpy dx \<or> is_numpy A \<or> \<not> list_ex (\<lambda>(s, d). \<not> is_numpy d) items \<Longrightarrow>
   resolve_loop A dx items rates =
     Inr (foldl (\<lambda>r (s, d). AList.update s (Scalar Inf_or_nan) r) rates items)"
proof (induction items arbitrary: rates)
  case Nil
  then show ?case by simp
next
  case (Cons x items)
  obtain s d where x: "x = (s, d)" by (cases x)
  have "py_div (Num (py_mul d A)) dx = Inr Inf_or_nan"
    using Cons.prems x by (auto simp: py_mul_simps)
  moreover have "is_numpy dx \<or> is_numpy A \<or> \<not> list_ex (\<lambda>(s, d). \<not> is_numpy d) items"
    using Cons.prems(2) by auto
  ultimately show ?case using Cons.IH [OF Cons.prems(1)] x by (simp add: bind_err_simps)
qed











subsection \<open>The geometry of a Ficks connection\<close>

lemma item_simps: "i < length xs \<Longrightarrow> item xs i = Inr (xs ! i)" "\<not> i < length xs \<Longrightarrow> item xs i = Inl IndexError"
  by (simp_all add: item_def)

lemma magnitude_py_min: "magnitude (py_min a b) = min (magnitude a) (magnitude b)"
  by (simp add: py_min_def min_def)

lemma adjoining_touching:
  "i < length (pos c1) \<Longrightarrow> i < length (pos c2) \<Longrightarrow>
   adjoining (pos c1) (pos c2) i = Inr (touching c1 c2 i)"
  by (simp add: adjoining_def touching_def item_def bind_err_simps)

lemma adjoining_Inr:
  "adjoining (pos c1) (pos c2) i = Inr b \<Longrightarrow> b = touching c1 c2 i"
  by (auto simp: adjoining_def touching_def item_def bind_err_def split: if_splits)

lemma min_face_Inr:
  "min_face c1 c2 k = Inr A \<Longrightarrow>
   \<exists>A1 A2. map_of (surface_area_c c1) k = Some A1 \<and> map_of (surface_area_c c2) k = Some A2
     \<and> A = py_min A1 A2"
  by (auto simp: min_face_def getitem_def bind_err_def split: option.splits)

lemma min_face_present:
  "map_of (surface_area_c c1) k = Some A1 \<Longrightarrow> map_of (surface_area_c c2) k = Some A2 \<Longrightarrow>
   min_face c1 c2 k = Inr (py_min A1 A2)"
  by (simp add: min_face_def getitem_def bind_err_simps)

lemma compute_surface_area_Inr:
  assumes "compute_surface_area c1 c2 = Inr A"
  shows "(touching c1 c2 0 \<or> touching c1 c2 1 \<or> touching c1 c2 2)
    \<and> (\<exists>A1 A2. map_of (surface_area_c c1) (first_touching_face c1 c2) = Some A1
          \<and> map_of (surface_area_c c2) (first_touching_face c1 c2) = Some A2 \<and> A = py_min A1 A2)"
proof -
  obtain x where x: "adjoining (pos c1) (pos c2) 0 = Inr x"
    using assms by (cases "adjoining (pos c1) (pos c2) 0") (simp_all add: compute_surface_area_def bind_err_simps)
  have tx: "x = touching c1 c2 0" using x by (rule adjoining_Inr)
  show ?thesis
  proof (cases x)
    case True
    then have "min_face c1 c2 ''yz'' = Inr A"
      using assms x by (simp add: compute_surface_area_def bind_err_simps)
    then show ?thesis using True tx min_face_Inr [of c1 c2 "''yz''" A]
      by (simp add: first_touching_face_def)
  next
    case False
    obtain y where y: "adjoining (pos c1) (pos c2) 1 = Inr y"
      using assms x False
      by (cases "adjoining (pos c1) (pos c2) 1") (simp_all add: compute_surface_area_def bind_err_simps)
    have ty: "y = touching c1 c2 1" using y by (rule adjoining_Inr)
    show ?thesis
    proof (cases y)
      case True
      then have "min_face c1 c2 ''xz'' = Inr A"
        using assms x y False by (simp add: compute_surface_area_def bind_err_simps)
      then show ?thesis using True False tx ty min_face_Inr [of c1 c2 "''xz''" A]
        by (simp add: first_touching_face_def)
    next
      case yF: False
      obtain z where z: "adjoining (pos c1) (pos c2) 2 = Inr z"
        using assms x y False yF
        by (cases "adjoining (pos c1) (pos c2) 2") (simp_all add: compute_surface_area_def bind_err_simps)
      have tz: "z = touching c1 c2 2" using z by (rule adjoining_Inr)
      have zT: z using assms x y z False yF by (cases z) (simp_all add: compute_surface_area_def bind_err_simps)
      then have "min_face c1 c2 ''xy'' = Inr A"
        using assms x y z False yF by (simp add: compute_surface_area_def bind_err_simps)
      then show ?thesis using zT False yF tx ty tz min_face_Inr [of c1 c2 "''xy''" A]
        by (simp add: first_touching_face_def)
    qed
  qed
qed

lemma three_axes:
  assumes "3 \<le> length xs"
  shows "0 < length xs" "1 < length xs" "2 < length xs"
  using assms by linarith+

lemma compute_surface_area_unfold:
  assumes "3 \<le> length (pos c1)" "3 \<le> length (pos c2)"
  shows "compute_surface_area c1 c2 =
     (if touching c1 c2 0 then min_face c1 c2 ''yz''
      else if touching c1 c2 1 then min_face c1 c2 ''xz''
      else if touching c1 c2 2 then min_face c1 c2 ''xy''
      else Inl (ValueError No_adjoining_face))"
proof -
  note l1 = three_axes [OF assms(1)] and l2 = three_axes [OF assms(2)]
  have a0: "adjoining (pos c1) (pos c2) 0 = Inr (touching c1 c2 0)"
    using l1(1) l2(1) by (rule adjoining_touching)
  have a1: "adjoining (pos c1) (pos c2) 1 = Inr (touching c1 c2 1)"
    using l1(2) l2(2) by (rule adjoining_touching)
  have a2: "adjoining (pos c1) (pos c2) 2 = Inr (touching c1 c2 2)"
    using l1(3) l2(3) by (rule adjoining_touching)
  show ?thesis
    unfolding compute_surface_area_def a0 a1 a2 by (simp add: bind_err_simps)
qed

lemma compute_surface_area_no_contact:
  assumes "3 \<le> length (pos c1)" "3 \<le> length (pos c2)"
    "\<not> touching c1 c2 0" "\<not> touching c1 c2 1" "\<not> touching c1 c2 2"
  shows "compute_surface_area c1 c2 = Inl (ValueError No_adjoining_face)"
  using assms(3,4,5) by (simp add: compute_surface_area_unfold [OF assms(1,2)])

lemma compute_surface_area_contact:
  assumes "3 \<le> length (pos c1)" "3 \<le> length (pos c2)"
    "touching c1 c2 0 \<or> touching c1 c2 1 \<or> touching c1 c2 2"
    "map_of (surface_area_c c1) (first_touching_face c1 c2) = Some A1"
    "map_of (surface_area_c c2) (first_touching_face c1 c2) = Some A2"
  shows "compute_surface_area c1 c2 = Inr (py_min A1 A2)"
proof -
  have "compute_surface_area c1 c2 = min_face c1 c2 (first_touching_face c1 c2)"
    using assms(3) by (auto simp: compute_surface_area_unfold [OF assms(1,2)] first_touching_face_def)
  then show ?thesis using min_face_present [OF assms(4,5)] by simp
qed

lemma bind_geometry_area:
  assumes "bind_geometry self c1 c2 conn = Inr conn'" "surface_area conn = None"
  shows "\<exists>A. compute_surface_area c1 c2 = Inr A \<and> surface_area conn' = Some A"
  using assms
  by (auto simp: bind_geometry_def bind_err_def split: sum.splits option.splits)

lemma bind_geometry_area_error:
  assumes "compute_surface_area c1 c2 = Inl e" "surface_area conn = None"
  shows "bind_geometry self c1 c2 conn = Inl e"
  using assms by (simp add: bind_geometry_def bind_err_simps)

lemma resolve_ficks_Inr:
  assumes "resolve_ficks self k1 k2 a (st, fm) = Inr (st', fm')"
    "map_of fm k1 = Some c1" "map_of fm k2 = Some c2"
  shows "bind_geometry self c1 c2 (st a) = Inr (st' a)"
  using assms
  by (auto simp: resolve_ficks_def bind_err_def Let_def split: sum.splits option.splits)

lemma resolve_ficks_geometry_error:
  assumes "bind_geometry self c1 c2 (st a) = Inl e"
    "map_of fm k1 = Some c1" "map_of fm k2 = Some c2"
  shows "resolve_ficks self k1 k2 a (st, fm) = Inl e"
  using assms by (simp add: resolve_ficks_def bind_err_simps)

lemma bound_geometry_Inr:
  "bound_geometry a r = Inr (A, D) \<Longrightarrow>
   \<exists>st' fm'. r = Inr (st', fm') \<and> map_option magnitude (surface_area (st' a)) = A
     \<and> map_option magnitude (ic_distance (st' a)) = D"
  by (cases r) (auto simp: bound_geometry_def bind_err_simps)

lemma resolve_ficks_unfold:
  assumes "map_of fm k1 = Some c1" "map_of fm k2 = Some c2"
  shows "resolve_ficks self k1 k2 a (st, fm) =
     bind_err (bind_geometry self c1 c2 (st a)) (\<lambda>conn.
     bind_err (resolve conn) (\<lambda>new_conn.
       case map_of (AList.update k1 (connect c1 c2 new_conn) fm) k2 of
         None \<Rightarrow> Inl KeyError
       | Some c2' \<Rightarrow>
           Inr (st(a := conn),
                AList.update k2 (connect c2' (connect c1 c2 new_conn) new_conn)
                  (AList.update k1 (connect c1 c2 new_conn) fm))))"
  using assms by (simp add: resolve_ficks_def Let_def cong: option.case_cong)

text \<open>
  With the geometry bound and a connection that resolves, \<^verbatim>\<open>resolve_ficks\<close> returns and
  leaves the connection object with that geometry.
\<close>

lemma resolve_ficks_returns:
  assumes "map_of fm k1 = Some c1" "map_of fm k2 = Some c2"
    "bind_geometry self c1 c2 (st a) = Inr conn" "resolve conn = Inr new_conn"
  shows "\<exists>fm'. resolve_ficks self k1 k2 a (st, fm) = Inr (st(a := conn), fm')"
proof -
  have "k2 \<in> fst ` set (AList.update k1 (connect c1 c2 new_conn) fm)"
    using assms(2) by (auto simp: dom_update dest: map_of_SomeD intro: rev_image_eqI)
  then obtain c2' where "map_of (AList.update k1 (connect c1 c2 new_conn) fm) k2 = Some c2'"
    by (metis domD dom_map_of_conv_image_fst)
  then show ?thesis
    unfolding resolve_ficks_unfold [OF assms(1,2)] assms(3,4) bind_err_simps by simp
qed

lemma resolve_returns:
  assumes "surface_area f = Some A" "ic_distance f = Some dx" "magnitude dx \<noteq> 0 \<or> is_numpy dx"
  shows "\<exists>conn. resolve f = Inr conn"
proof (cases "magnitude dx = 0")
  case False
  then show ?thesis using assms(1,2)
    by (simp add: resolve_def resolve_loop_nonzero bind_err_simps)
next
  case True
  then have "is_numpy dx" using assms(3) by simp
  then show ?thesis using assms(1,2) True
    by (simp add: resolve_def resolve_loop_zero_numpy bind_err_simps)
qed

lemma wrap_Inr:
  assumes "wrap self i dc = Inr w" "periodic self = Some ps"
  shows "i < length ps \<and> (\<not> ps ! i \<longrightarrow> w = dc)
     \<and> (ps ! i \<longrightarrow> (\<exists>ls. box_len self = Some ls \<and> i < length ls \<and> w = shift_image (ls ! i) dc))"
proof -
  from assms(1) obtain p where p: "subscript (periodic self) i = Inr p"
    and r: "(if p then bind_err (subscript (box_len self) i) (\<lambda>L.
              Inr (if dc * 2 < - L then dc + L else if dc * 2 > L then dc - L else dc))
            else Inr dc) = Inr w"
    unfolding wrap_def by (auto dest!: bind_err_Inr)
  have i: "i < length ps" and pi: "p = ps ! i"
    using p assms(2) by (auto simp: subscript_def split: if_splits)
  show ?thesis
  proof (cases p)
    case False
    then show ?thesis using r i pi by simp
  next
    case True
    then obtain L where L: "subscript (box_len self) i = Inr L"
      and w: "w = (if dc * 2 < - L then dc + L else if dc * 2 > L then dc - L else dc)"
      using r by (auto dest!: bind_err_Inr)
    from L obtain ls where "box_len self = Some ls" "i < length ls" "L = ls ! i"
      by (auto simp: subscript_def split: option.splits if_splits)
    then show ?thesis using True i pi w by (simp add: shift_image_def)
  qed
qed

lemma wrap_displacement:
  assumes "wrap self i (center c1 i - center c2 i) = Inr w"
    "periodic self = Some ps" "box_len self = Some ls"
  shows "w = displacement ps ls c1 c2 i"
  using wrap_Inr [OF assms(1,2)] assms(3) by (auto simp: displacement_def)

lemma wrap_total:
  assumes "periodic self = Some ps" "box_len self = Some ls" "i < length ps" "i < length ls"
  shows "wrap self i (center c1 i - center c2 i) = Inr (displacement ps ls c1 c2 i)"
  using assms
  by (simp add: wrap_def subscript_def bind_err_simps displacement_def shift_image_def)

lemma center_difference_Inr:
  "center_difference (pos c1) (pos c2) i = Inr d \<Longrightarrow> d = center c1 i - center c2 i"
  by (auto simp: center_difference_def center_def item_def bind_err_def split: if_splits)

lemma center_difference_total:
  "i < length (pos c1) \<Longrightarrow> i < length (pos c2) \<Longrightarrow>
   center_difference (pos c1) (pos c2) i = Inr (center c1 i - center c2 i)"
  by (simp add: center_difference_def center_def item_def bind_err_simps)

lemma distance_loop_three:
  "distance_loop self 0 [d0, d1, d2] 0 =
      bind_err (wrap self 0 d0) (\<lambda>w0. bind_err (wrap self 1 d1) (\<lambda>w1.
        bind_err (wrap self 2 d2) (\<lambda>w2. Inr (0 + w0\<^sup>2 + w1\<^sup>2 + w2\<^sup>2))))"
  by (simp add: numeral_2_eq_2)

lemma compute_ic_distance_Inr:
  assumes "compute_ic_distance self c1 c2 = Inr dd"
    "periodic self = Some ps" "box_len self = Some ls"
  shows "dd = Np (sqrt ((displacement ps ls c1 c2 0)\<^sup>2 + (displacement ps ls c1 c2 1)\<^sup>2
                      + (displacement ps ls c1 c2 2)\<^sup>2))"
proof -
  from assms(1) obtain d0 where
    d0: "center_difference (pos c1) (pos c2) 0 = Inr d0" and
    r0: "bind_err (center_difference (pos c1) (pos c2) 1) (\<lambda>d1.
          bind_err (center_difference (pos c1) (pos c2) 2) (\<lambda>d2.
          bind_err (distance_loop self 0 [d0, d1, d2] 0) (\<lambda>s. Inr (Np (sqrt s))))) = Inr dd"
    unfolding compute_ic_distance_def by (blast dest: bind_err_Inr)
  from r0 obtain d1 where
    d1: "center_difference (pos c1) (pos c2) 1 = Inr d1" and
    r1: "bind_err (center_difference (pos c1) (pos c2) 2) (\<lambda>d2.
          bind_err (distance_loop self 0 [d0, d1, d2] 0) (\<lambda>s. Inr (Np (sqrt s)))) = Inr dd"
    by (blast dest: bind_err_Inr)
  from r1 obtain d2 where
    d2: "center_difference (pos c1) (pos c2) 2 = Inr d2" and
    r2: "bind_err (distance_loop self 0 [d0, d1, d2] 0) (\<lambda>s. Inr (Np (sqrt s))) = Inr dd"
    by (blast dest: bind_err_Inr)
  from r2 obtain s where
    s: "distance_loop self 0 [d0, d1, d2] 0 = Inr s" and dd: "dd = Np (sqrt s)"
    by (auto dest: bind_err_Inr)
  from s obtain w0 where
    w0: "wrap self 0 d0 = Inr w0" and
    q0: "bind_err (wrap self 1 d1) (\<lambda>w1.
        bind_err (wrap self 2 d2) (\<lambda>w2. Inr (0 + w0\<^sup>2 + w1\<^sup>2 + w2\<^sup>2))) = Inr s"
    unfolding distance_loop_three by (blast dest: bind_err_Inr)
  from q0 obtain w1 where
    w1: "wrap self 1 d1 = Inr w1" and
    q1: "bind_err (wrap self 2 d2) (\<lambda>w2. Inr (0 + w0\<^sup>2 + w1\<^sup>2 + w2\<^sup>2)) = Inr s"
    by (blast dest: bind_err_Inr)
  from q1 obtain w2 where
    w2: "wrap self 2 d2 = Inr w2" and
    sum: "s = 0 + w0\<^sup>2 + w1\<^sup>2 + w2\<^sup>2"
    by (auto dest: bind_err_Inr)
  have "w0 = displacement ps ls c1 c2 0"
    using w0 center_difference_Inr [OF d0] assms(2,3) by (auto intro: wrap_displacement)
  moreover have "w1 = displacement ps ls c1 c2 1"
    using w1 center_difference_Inr [OF d1] assms(2,3) by (auto intro: wrap_displacement)
  moreover have "w2 = displacement ps ls c1 c2 2"
    using w2 center_difference_Inr [OF d2] assms(2,3) by (auto intro: wrap_displacement)
  ultimately show ?thesis using dd sum by simp
qed

lemma compute_ic_distance_total:
  assumes "3 \<le> length (pos c1)" "3 \<le> length (pos c2)"
    "periodic self = Some ps" "box_len self = Some ls" "3 \<le> length ps" "3 \<le> length ls"
  shows "compute_ic_distance self c1 c2 =
     Inr (Np (sqrt ((displacement ps ls c1 c2 0)\<^sup>2 + (displacement ps ls c1 c2 1)\<^sup>2
                      + (displacement ps ls c1 c2 2)\<^sup>2)))"
proof -
  note l1 = three_axes [OF assms(1)] and l2 = three_axes [OF assms(2)]
  note lp = three_axes [OF assms(5)] and ll = three_axes [OF assms(6)]
  have c0: "center_difference (pos c1) (pos c2) 0 = Inr (center c1 0 - center c2 0)"
    using l1(1) l2(1) by (rule center_difference_total)
  have c1: "center_difference (pos c1) (pos c2) 1 = Inr (center c1 1 - center c2 1)"
    using l1(2) l2(2) by (rule center_difference_total)
  have c2: "center_difference (pos c1) (pos c2) 2 = Inr (center c1 2 - center c2 2)"
    using l1(3) l2(3) by (rule center_difference_total)
  have w0: "wrap self 0 (center c1 0 - center c2 0) = Inr (displacement ps ls c1 c2 0)"
    using assms(3,4) lp(1) ll(1) by (rule wrap_total)
  have w1: "wrap self 1 (center c1 1 - center c2 1) = Inr (displacement ps ls c1 c2 1)"
    using assms(3,4) lp(2) ll(2) by (rule wrap_total)
  have w2: "wrap self 2 (center c1 2 - center c2 2) = Inr (displacement ps ls c1 c2 2)"
    using assms(3,4) lp(3) ll(3) by (rule wrap_total)
  show ?thesis
    unfolding compute_ic_distance_def c0 c1 c2 bind_err_simps distance_loop_three w0 w1 w2
    by simp
qed

lemma bind_geometry_distance:
  assumes "bind_geometry self c1 c2 conn = Inr conn'" "ic_distance conn = None"
  shows "\<exists>d. compute_ic_distance self c1 c2 = Inr d \<and> ic_distance conn' = Some d"
  using assms
  by (auto simp: bind_geometry_def bind_err_def split: sum.splits option.splits)

text \<open>
  When the two boxes touch and the distance can be had, the two blocks bind the area of
  the face of the first touching axis and leave a distance that is not a Python zero.
\<close>

lemma bind_geometry_total:
  assumes "3 \<le> length (pos c1)" "3 \<le> length (pos c2)" "surface_area conn = None"
    "touching c1 c2 0 \<or> touching c1 c2 1 \<or> touching c1 c2 2"
    "map_of (surface_area_c c1) (first_touching_face c1 c2) = Some A1"
    "map_of (surface_area_c c2) (first_touching_face c1 c2) = Some A2"
    "distance_at_hand self conn"
  shows "\<exists>conn' dx. bind_geometry self c1 c2 conn = Inr conn'
     \<and> surface_area conn' = Some (py_min A1 A2) \<and> ic_distance conn' = Some dx
     \<and> (magnitude dx \<noteq> 0 \<or> is_numpy dx)"
proof -
  have area: "compute_surface_area c1 c2 = Inr (py_min A1 A2)"
    using assms(1,2,4,5,6) by (rule compute_surface_area_contact)
  show ?thesis
  proof (cases "ic_distance conn")
    case (Some dx)
    then have "magnitude dx \<noteq> 0 \<or> is_numpy dx"
      using assms(7) by (simp add: distance_at_hand_def)
    then show ?thesis
      using assms(3) area Some by (simp add: bind_geometry_def bind_err_simps)
  next
    case None
    then obtain ps ls where g: "periodic self = Some ps" "box_len self = Some ls"
      "3 \<le> length ps" "3 \<le> length ls"
      using assms(7) by (auto simp: distance_at_hand_def split: option.splits)
    note d = compute_ic_distance_total [OF assms(1,2) g]
    show ?thesis
      using assms(3) area None d by (simp add: bind_geometry_def bind_err_simps)
  qed
qed

lemma shift_image_range:
  assumes "0 \<le> L" "\<bar>d\<bar> * 2 \<le> 3 * L"
  shows "\<bar>shift_image L d\<bar> * 2 \<le> L"
  using assms by (auto simp: shift_image_def abs_if split: if_splits)

lemma shift_image_cases:
  "shift_image L d = d \<or> shift_image L d = d + L \<or> shift_image L d = d - L"
  by (simp add: shift_image_def)

lemmas example_defs = box_def example_model_def example_ficks_def constant_store_def bound_geometry_def
  resolve_ficks_def bind_geometry_def compute_surface_area_def compute_ic_distance_def
  adjoining_def min_face_def center_difference_def wrap_def subscript_def item_def getitem_def
  resolve_def py_mul_def py_min_def result_of_def IsotropicConnection_init_def connect_def
  bind_err_simps touching_def first_touching_face_def

text \<open>
  C6 claims that contact on more than one axis is an error. Two boxes that share an edge
  only, and so touch along x and along y, are resolved without an error: the
  connection gets the area of the smaller of their \<open>yz\<close> faces.
\<close>

theorem surface_area_ambiguous_counterexample:
  "touching (box ''a'' (0, 1) (0, 1) (0, 1) [(''b'', Ficks 0)])
            (box ''b'' (1, 2) (1, 3) (0, 1) [(''a'', Ficks 0)]) 0
   \<and> touching (box ''a'' (0, 1) (0, 1) (0, 1) [(''b'', Ficks 0)])
              (box ''b'' (1, 2) (1, 3) (0, 1) [(''a'', Ficks 0)]) 1
   \<and> bound_geometry 0
        (resolve_ficks (example_model [False, False, False] [2, 3, 1]) ''a'' ''b'' 0
           (constant_store (example_ficks None (Some 1)),
            [(''a'', box ''a'' (0, 1) (0, 1) (0, 1) [(''b'', Ficks 0)]),
             (''b'', box ''b'' (1, 2) (1, 3) (0, 1) [(''a'', Ficks 0)])]))
      = Inr (Some 1, Some 1)"
  by (simp add: example_defs)

text \<open>
  C6, amended: when \<^verbatim>\<open>resolve_ficks\<close> is given a connection without a surface area,
  the surface area it binds is the minimum of the two compartments' areas of the face
  that belongs to the first axis, in the order x, y, z, along which the boxes touch.
  Contact on several axes is not detected and is no error: whenever the boxes touch
  along some axis, the two compartments have that face and the distance can be had,
  \<^verbatim>\<open>resolve_ficks\<close> returns with that area bound. When the boxes touch along none of the
  three axes, \<^verbatim>\<open>resolve_ficks\<close> raises a \<open>ValueError\<close>. Conversely, whenever it returns,
  the boxes touch and the area is the one described. The boxes have three axes.
\<close>

theorem surface_area_first_touching_axis:
  assumes "map_of fm k1 = Some c1" "map_of fm k2 = Some c2" "surface_area (st a) = None"
    "3 \<le> length (pos c1)" "3 \<le> length (pos c2)"
  shows "(\<not> touching c1 c2 0 \<and> \<not> touching c1 c2 1 \<and> \<not> touching c1 c2 2
          \<longrightarrow> resolve_ficks self k1 k2 a (st, fm) = Inl (ValueError No_adjoining_face))
       \<and> (\<forall>A1 A2. (touching c1 c2 0 \<or> touching c1 c2 1 \<or> touching c1 c2 2)
              \<and> map_of (surface_area_c c1) (first_touching_face c1 c2) = Some A1
              \<and> map_of (surface_area_c c2) (first_touching_face c1 c2) = Some A2
              \<and> distance_at_hand self (st a)
            \<longrightarrow> (\<exists>D. bound_geometry a (resolve_ficks self k1 k2 a (st, fm))
                        = Inr (Some (min (magnitude A1) (magnitude A2)), Some D)))
       \<and> (\<forall>A D. bound_geometry a (resolve_ficks self k1 k2 a (st, fm)) = Inr (A, D) \<longrightarrow>
            (touching c1 c2 0 \<or> touching c1 c2 1 \<or> touching c1 c2 2) \<and>
            (\<exists>A1 A2. map_of (surface_area_c c1) (first_touching_face c1 c2) = Some A1
               \<and> map_of (surface_area_c c2) (first_touching_face c1 c2) = Some A2
               \<and> A = Some (min (magnitude A1) (magnitude A2))))"
proof (intro conjI allI impI)
  assume h: "\<not> touching c1 c2 0 \<and> \<not> touching c1 c2 1 \<and> \<not> touching c1 c2 2"
  have "compute_surface_area c1 c2 = Inl (ValueError No_adjoining_face)"
    using assms(4,5) h by (intro compute_surface_area_no_contact) simp_all
  then have "bind_geometry self c1 c2 (st a) = Inl (ValueError No_adjoining_face)"
    using assms(3) by (rule bind_geometry_area_error)
  then show "resolve_ficks self k1 k2 a (st, fm) = Inl (ValueError No_adjoining_face)"
    using assms(1,2) by (rule resolve_ficks_geometry_error)
next
  fix A1 A2
  assume h: "(touching c1 c2 0 \<or> touching c1 c2 1 \<or> touching c1 c2 2)
              \<and> map_of (surface_area_c c1) (first_touching_face c1 c2) = Some A1
              \<and> map_of (surface_area_c c2) (first_touching_face c1 c2) = Some A2
              \<and> distance_at_hand self (st a)"
  have t: "touching c1 c2 0 \<or> touching c1 c2 1 \<or> touching c1 c2 2"
    and f1: "map_of (surface_area_c c1) (first_touching_face c1 c2) = Some A1"
    and f2: "map_of (surface_area_c c2) (first_touching_face c1 c2) = Some A2"
    and d: "distance_at_hand self (st a)"
    using h by simp_all
  from bind_geometry_total [OF assms(4,5,3) t f1 f2 d] obtain conn dx where
    g: "bind_geometry self c1 c2 (st a) = Inr conn" and
    A: "surface_area conn = Some (py_min A1 A2)" and
    D: "ic_distance conn = Some dx" and nz: "magnitude dx \<noteq> 0 \<or> is_numpy dx"
    by blast
  from resolve_returns [OF A D nz] obtain new_conn where n: "resolve conn = Inr new_conn"
    by blast
  from resolve_ficks_returns [of fm k1 c1 k2 c2 self st a conn new_conn, OF assms(1,2) g n]
  obtain fm' where
    "resolve_ficks self k1 k2 a (st, fm) = Inr (st(a := conn), fm')"
    by blast
  then have "bound_geometry a (resolve_ficks self k1 k2 a (st, fm))
      = Inr (Some (min (magnitude A1) (magnitude A2)), Some (magnitude dx))"
    using A D by (simp add: bound_geometry_def bind_err_simps magnitude_py_min)
  then show "\<exists>D. bound_geometry a (resolve_ficks self k1 k2 a (st, fm))
                 = Inr (Some (min (magnitude A1) (magnitude A2)), Some D)"
    by blast
next
  fix A D
  assume "bound_geometry a (resolve_ficks self k1 k2 a (st, fm)) = Inr (A, D)"
  then obtain st' fm' where r: "resolve_ficks self k1 k2 a (st, fm) = Inr (st', fm')"
    and A: "map_option magnitude (surface_area (st' a)) = A"
    by (blast dest: bound_geometry_Inr)
  have "bind_geometry self c1 c2 (st a) = Inr (st' a)"
    using r assms(1,2) by (rule resolve_ficks_Inr)
  then obtain A' where A': "compute_surface_area c1 c2 = Inr A'" "surface_area (st' a) = Some A'"
    using assms(3) bind_geometry_area by blast
  show "touching c1 c2 0 \<or> touching c1 c2 1 \<or> touching c1 c2 2"
    using compute_surface_area_Inr [OF A'(1)] by blast
  show "\<exists>A1 A2. map_of (surface_area_c c1) (first_touching_face c1 c2) = Some A1
               \<and> map_of (surface_area_c c2) (first_touching_face c1 c2) = Some A2
               \<and> A = Some (min (magnitude A1) (magnitude A2))"
    using compute_surface_area_Inr [OF A'(1)] A'(2) A by (auto simp: magnitude_py_min)
qed

text \<open>
  Three pairs of boxes, in a model without periodic axes and with a connection that has
  neither area nor distance. The first pair touches along z only: the connection gets
  the smaller \<open>xy\<close> face, of area 1, and the distance 2 of the centers. The second pair
  shares an edge and touches along x and along y: the connection gets the smaller
  \<open>yz\<close> face, of area 1. The third pair is apart along x and touches nowhere: the
  connection is not resolved.
\<close>

theorem surface_area_first_touching_axis_witness:
  "first_touching_face (box ''a'' (0, 3) (0, 1) (0, 1) [(''b'', Ficks 0)])
        (box ''b'' (1, 2) (0, 1) (1, 4) [(''a'', Ficks 0)]) = ''xy''
   \<and> bound_geometry 0
        (resolve_ficks (example_model [False, False, False] [3, 1, 4]) ''a'' ''b'' 0
           (constant_store (example_ficks None None),
            [(''a'', box ''a'' (0, 3) (0, 1) (0, 1) [(''b'', Ficks 0)]),
             (''b'', box ''b'' (1, 2) (0, 1) (1, 4) [(''a'', Ficks 0)])]))
      = Inr (Some 1, Some 2)
   \<and> (\<exists>D. bound_geometry 0
        (resolve_ficks (example_model [False, False, False] [3, 1, 4]) ''a'' ''b'' 0
           (constant_store (example_ficks None None),
            [(''a'', box ''a'' (0, 3) (0, 1) (0, 1) [(''b'', Ficks 0)]),
             (''b'', box ''b'' (1, 2) (0, 1) (1, 4) [(''a'', Ficks 0)])]))
      = Inr (Some (min (magnitude (Py 3)) (magnitude (Py 1))), Some D))
   \<and> touching (box ''a'' (0, 1) (0, 1) (0, 1) [(''b'', Ficks 0)])
              (box ''b'' (1, 2) (1, 3) (0, 1) [(''a'', Ficks 0)]) 0
   \<and> touching (box ''a'' (0, 1) (0, 1) (0, 1) [(''b'', Ficks 0)])
              (box ''b'' (1, 2) (1, 3) (0, 1) [(''a'', Ficks 0)]) 1
   \<and> (\<exists>D. bound_geometry 0
        (resolve_ficks (example_model [False, False, False] [3, 1, 4]) ''a'' ''b'' 0
           (constant_store (example_ficks None None),
            [(''a'', box ''a'' (0, 1) (0, 1) (0, 1) [(''b'', Ficks 0)]),
             (''b'', box ''b'' (1, 2) (1, 3) (0, 1) [(''a'', Ficks 0)])]))
      = Inr (Some (min (magnitude (Py 1)) (magnitude (Py 2))), Some D))
   \<and> resolve_ficks (example_model [False, False, False] [3, 1, 4]) ''a'' ''b'' 0
           (constant_store (example_ficks None None),
            [(''a'', box ''a'' (0, 1) (0, 1) (0, 1) [(''b'', Ficks 0)]),
             (''b'', box ''b'' (3, 4) (0, 1) (0, 1) [(''a'', Ficks 0)])])
      = Inl (ValueError No_adjoining_face)"
proof -
  have none: "surface_area (constant_store (example_ficks None None) 0) = None"
    by (simp add: example_ficks_def constant_store_def)
  have dist: "distance_at_hand (example_model [False, False, False] [3, 1, 4])
                (constant_store (example_ficks None None) 0)"
    by (simp add: distance_at_hand_def example_ficks_def constant_store_def example_model_def)
  have f: "first_touching_face (box ''a'' (0, 3) (0, 1) (0, 1) [(''b'', Ficks 0)])
        (box ''b'' (1, 2) (0, 1) (1, 4) [(''a'', Ficks 0)]) = ''xy''"
    by (simp add: box_def first_touching_face_def touching_def)
  have g: "bound_geometry 0
        (resolve_ficks (example_model [False, False, False] [3, 1, 4]) ''a'' ''b'' 0
           (constant_store (example_ficks None None),
            [(''a'', box ''a'' (0, 3) (0, 1) (0, 1) [(''b'', Ficks 0)]),
             (''b'', box ''b'' (1, 2) (0, 1) (1, 4) [(''a'', Ficks 0)])]))
      = Inr (Some 1, Some 2)"
    by (simp add: example_defs)
  note z = surface_area_first_touching_axis
      [of "[(''a'', box ''a'' (0, 3) (0, 1) (0, 1) [(''b'', Ficks 0)]),
            (''b'', box ''b'' (1, 2) (0, 1) (1, 4) [(''a'', Ficks 0)])]"
          "''a''" "box ''a'' (0, 3) (0, 1) (0, 1) [(''b'', Ficks 0)]"
          "''b''" "box ''b'' (1, 2) (0, 1) (1, 4) [(''a'', Ficks 0)]"
          "constant_store (example_ficks None None)" 0
          "example_model [False, False, False] [3, 1, 4]"]
  have zc: "\<exists>D. bound_geometry 0
        (resolve_ficks (example_model [False, False, False] [3, 1, 4]) ''a'' ''b'' 0
           (constant_store (example_ficks None None),
            [(''a'', box ''a'' (0, 3) (0, 1) (0, 1) [(''b'', Ficks 0)]),
             (''b'', box ''b'' (1, 2) (0, 1) (1, 4) [(''a'', Ficks 0)])]))
      = Inr (Some (min (magnitude (Py 3)) (magnitude (Py 1))), Some D)"
  proof -
    have "touching (box ''a'' (0, 3) (0, 1) (0, 1) [(''b'', Ficks 0)])
              (box ''b'' (1, 2) (0, 1) (1, 4) [(''a'', Ficks 0)]) 2"
      by (simp add: box_def touching_def)
    moreover have "map_of (surface_area_c (box ''a'' (0, 3) (0, 1) (0, 1) [(''b'', Ficks 0)])) ''xy''
        = Some (Py 3)"
      "map_of (surface_area_c (box ''b'' (1, 2) (0, 1) (1, 4) [(''a'', Ficks 0)])) ''xy''
        = Some (Py 1)"
      by (simp_all add: box_def)
    ultimately show ?thesis
      using z none dist unfolding f by (simp add: box_def)
  qed
  have t0: "touching (box ''a'' (0, 1) (0, 1) (0, 1) [(''b'', Ficks 0)])
              (box ''b'' (1, 2) (1, 3) (0, 1) [(''a'', Ficks 0)]) 0"
    and t1: "touching (box ''a'' (0, 1) (0, 1) (0, 1) [(''b'', Ficks 0)])
              (box ''b'' (1, 2) (1, 3) (0, 1) [(''a'', Ficks 0)]) 1"
    by (simp_all add: box_def touching_def)
  have fe: "first_touching_face (box ''a'' (0, 1) (0, 1) (0, 1) [(''b'', Ficks 0)])
        (box ''b'' (1, 2) (1, 3) (0, 1) [(''a'', Ficks 0)]) = ''yz''"
    using t0 by (simp add: first_touching_face_def)
  note e = surface_area_first_touching_axis
      [of "[(''a'', box ''a'' (0, 1) (0, 1) (0, 1) [(''b'', Ficks 0)]),
            (''b'', box ''b'' (1, 2) (1, 3) (0, 1) [(''a'', Ficks 0)])]"
          "''a''" "box ''a'' (0, 1) (0, 1) (0, 1) [(''b'', Ficks 0)]"
          "''b''" "box ''b'' (1, 2) (1, 3) (0, 1) [(''a'', Ficks 0)]"
          "constant_store (example_ficks None None)" 0
          "example_model [False, False, False] [3, 1, 4]"]
  have ec: "\<exists>D. bound_geometry 0
        (resolve_ficks (example_model [False, False, False] [3, 1, 4]) ''a'' ''b'' 0
           (constant_store (example_ficks None None),
            [(''a'', box ''a'' (0, 1) (0, 1) (0, 1) [(''b'', Ficks 0)]),
             (''b'', box ''b'' (1, 2) (1, 3) (0, 1) [(''a'', Ficks 0)])]))
      = Inr (Some (min (magnitude (Py 1)) (magnitude (Py 2))), Some D)"
  proof -
    have "map_of (surface_area_c (box ''a'' (0, 1) (0, 1) (0, 1) [(''b'', Ficks 0)])) ''yz''
        = Some (Py 1)"
      "map_of (surface_area_c (box ''b'' (1, 2) (1, 3) (0, 1) [(''a'', Ficks 0)])) ''yz''
        = Some (Py 2)"
      by (simp_all add: box_def)
    then show ?thesis
      using e none dist t0 unfolding fe by (simp add: box_def)
  qed
  have n: "resolve_ficks (example_model [False, False, False] [3, 1, 4]) ''a'' ''b'' 0
           (constant_store (example_ficks None None),
            [(''a'', box ''a'' (0, 1) (0, 1) (0, 1) [(''b'', Ficks 0)]),
             (''b'', box ''b'' (3, 4) (0, 1) (0, 1) [(''a'', Ficks 0)])])
      = Inl (ValueError No_adjoining_face)"
    using none surface_area_first_touching_axis
      [of "[(''a'', box ''a'' (0, 1) (0, 1) (0, 1) [(''b'', Ficks 0)]),
            (''b'', box ''b'' (3, 4) (0, 1) (0, 1) [(''a'', Ficks 0)])]"
          "''a''" "box ''a'' (0, 1) (0, 1) (0, 1) [(''b'', Ficks 0)]"
          "''b''" "box ''b'' (3, 4) (0, 1) (0, 1) [(''a'', Ficks 0)]"
          "constant_store (example_ficks None None)" 0
          "example_model [False, False, False] [3, 1, 4]"]
    by (simp add: box_def touching_def)
  show ?thesis using f g zc t0 t1 ec n by blast
qed

text \<open>
  C7, amended: when \<^verbatim>\<open>resolve_ficks\<close> is given a connection without a distance and
  returns, the distance of the connection is the Euclidean norm of the displacements of
  the box centers along the three axes. Along an axis that is not periodic the
  displacement is the difference of the centers. Along a periodic axis, independently
  of the other axes, it is that difference moved by at most one box length \<open>L\<close>; it lies
  in \<open>[-L/2, L/2]\<close>, and is the minimum image, whenever the difference is at most
  \<open>3L/2\<close> in absolute value.
\<close>

theorem ic_distance_single_image:
  assumes "map_of fm k1 = Some c1" "map_of fm k2 = Some c2" "ic_distance (st a) = None"
    "periodic self = Some ps" "box_len self = Some ls"
    "bound_geometry a (resolve_ficks self k1 k2 a (st, fm)) = Inr (A, D)"
  shows "D = Some (sqrt ((displacement ps ls c1 c2 0)\<^sup>2 + (displacement ps ls c1 c2 1)\<^sup>2
                         + (displacement ps ls c1 c2 2)\<^sup>2))
     \<and> (\<forall>i. \<not> ps ! i \<longrightarrow> displacement ps ls c1 c2 i = center c1 i - center c2 i)
     \<and> (\<forall>i. ps ! i \<longrightarrow>
            displacement ps ls c1 c2 i - (center c1 i - center c2 i) \<in> {0, ls ! i, - (ls ! i)})
     \<and> (\<forall>i. ps ! i \<and> 0 \<le> ls ! i \<and> \<bar>center c1 i - center c2 i\<bar> * 2 \<le> 3 * ls ! i
            \<longrightarrow> \<bar>displacement ps ls c1 c2 i\<bar> * 2 \<le> ls ! i)"
proof (intro conjI allI impI)
  obtain st' fm' where r: "resolve_ficks self k1 k2 a (st, fm) = Inr (st', fm')"
    and D: "map_option magnitude (ic_distance (st' a)) = D"
    using assms(6) by (blast dest: bound_geometry_Inr)
  have "bind_geometry self c1 c2 (st a) = Inr (st' a)"
    using r assms(1,2) by (rule resolve_ficks_Inr)
  then obtain d where d: "compute_ic_distance self c1 c2 = Inr d" "ic_distance (st' a) = Some d"
    using assms(3) bind_geometry_distance by blast
  show "D = Some (sqrt ((displacement ps ls c1 c2 0)\<^sup>2 + (displacement ps ls c1 c2 1)\<^sup>2
                       + (displacement ps ls c1 c2 2)\<^sup>2))"
    using compute_ic_distance_Inr [OF d(1) assms(4,5)] d(2) D by auto
next
  fix i assume "\<not> ps ! i"
  then show "displacement ps ls c1 c2 i = center c1 i - center c2 i"
    by (simp add: displacement_def)
next
  fix i assume "ps ! i"
  then show "displacement ps ls c1 c2 i - (center c1 i - center c2 i) \<in> {0, ls ! i, - (ls ! i)}"
    using shift_image_cases [of "ls ! i" "center c1 i - center c2 i"]
    by (auto simp: displacement_def)
next
  fix i assume "ps ! i \<and> 0 \<le> ls ! i \<and> \<bar>center c1 i - center c2 i\<bar> * 2 \<le> 3 * ls ! i"
  then show "\<bar>displacement ps ls c1 c2 i\<bar> * 2 \<le> ls ! i"
    using shift_image_range [of "ls ! i" "center c1 i - center c2 i"]
    by (simp add: displacement_def)
qed

text \<open>
  With a box length of 10 along the periodic axis x, two compartments whose centers
  differ by \<open>-7\<close> along x and by 4 along y are at the distance 5: the displacement along
  x is 3.
\<close>

theorem ic_distance_single_image_witness:
  "bound_geometry 0
     (resolve_ficks (example_model [True, False, False] [10, 10, 10]) ''a'' ''b'' 0
        (constant_store (example_ficks (Some 1) None),
         [(''a'', box ''a'' (0, 2) (4, 6) (0, 2) [(''b'', Ficks 0)]),
          (''b'', box ''b'' (7, 9) (0, 2) (0, 2) [(''a'', Ficks 0)])]))
     = Inr (Some 1, Some 5)
   \<and> Some (5::real) =
       Some (sqrt ((displacement [True, False, False] [10, 10, 10]
                      (box ''a'' (0, 2) (4, 6) (0, 2) [(''b'', Ficks 0)])
                      (box ''b'' (7, 9) (0, 2) (0, 2) [(''a'', Ficks 0)]) 0)\<^sup>2
                 + (displacement [True, False, False] [10, 10, 10]
                      (box ''a'' (0, 2) (4, 6) (0, 2) [(''b'', Ficks 0)])
                      (box ''b'' (7, 9) (0, 2) (0, 2) [(''a'', Ficks 0)]) 1)\<^sup>2
                 + (displacement [True, False, False] [10, 10, 10]
                      (box ''a'' (0, 2) (4, 6) (0, 2) [(''b'', Ficks 0)])
                      (box ''b'' (7, 9) (0, 2) (0, 2) [(''a'', Ficks 0)]) 2)\<^sup>2))
   \<and> center (box ''a'' (0, 2) (4, 6) (0, 2) [(''b'', Ficks 0)]) 0
       - center (box ''b'' (7, 9) (0, 2) (0, 2) [(''a'', Ficks 0)]) 0 = - 7
   \<and> displacement [True, False, False] [10, 10, 10]
        (box ''a'' (0, 2) (4, 6) (0, 2) [(''b'', Ficks 0)])
        (box ''b'' (7, 9) (0, 2) (0, 2) [(''a'', Ficks 0)]) 0 = 3"
proof -
  have g: "bound_geometry 0
     (resolve_ficks (example_model [True, False, False] [10, 10, 10]) ''a'' ''b'' 0
        (constant_store (example_ficks (Some 1) None),
         [(''a'', box ''a'' (0, 2) (4, 6) (0, 2) [(''b'', Ficks 0)]),
          (''b'', box ''b'' (7, 9) (0, 2) (0, 2) [(''a'', Ficks 0)])]))
     = Inr (Some 1, Some 5)"
    by (simp add: example_defs)
  have c: "center (box ''a'' (0, 2) (4, 6) (0, 2) [(''b'', Ficks 0)]) 0
       - center (box ''b'' (7, 9) (0, 2) (0, 2) [(''a'', Ficks 0)]) 0 = - 7"
    by (simp add: center_def box_def)
  have d: "displacement [True, False, False] [10, 10, 10]
        (box ''a'' (0, 2) (4, 6) (0, 2) [(''b'', Ficks 0)])
        (box ''b'' (7, 9) (0, 2) (0, 2) [(''a'', Ficks 0)]) 0 = 3"
    by (simp add: displacement_def shift_image_def center_def box_def)
  have h1: "map_of [(''a'', box ''a'' (0, 2) (4, 6) (0, 2) [(''b'', Ficks 0)]),
                     (''b'', box ''b'' (7, 9) (0, 2) (0, 2) [(''a'', Ficks 0)])] ''a''
              = Some (box ''a'' (0, 2) (4, 6) (0, 2) [(''b'', Ficks 0)])"
    by simp
  have h2: "map_of [(''a'', box ''a'' (0, 2) (4, 6) (0, 2) [(''b'', Ficks 0)]),
                     (''b'', box ''b'' (7, 9) (0, 2) (0, 2) [(''a'', Ficks 0)])] ''b''
              = Some (box ''b'' (7, 9) (0, 2) (0, 2) [(''a'', Ficks 0)])"
    by simp
  have h3: "ic_distance (constant_store (example_ficks (Some 1) None) 0) = None"
    by (simp add: example_ficks_def constant_store_def)
  have h4: "periodic (example_model [True, False, False] [10, 10, 10]) = Some [True, False, False]"
    by (simp add: example_model_def)
  have h5: "box_len (example_model [True, False, False] [10, 10, 10]) = Some [10, 10, 10]"
    by (simp add: example_model_def)
  note t = ic_distance_single_image [OF h1 h2 h3 h4 h5 g]
  show ?thesis
    using g c d t by blast
qed

text \<open>
  C7 claims that the displacement along a periodic axis is mapped into \<open>[-L/2, L/2]\<close>.
  With a box length of 10 along the periodic axis x and two compartments whose centers
  are 20 apart along x and coincide along y and z, the distance is 10, so the
  displacement used along x is 10 and not within \<open>[-5, 5]\<close>.
\<close>

theorem ic_distance_far_image_counterexample:
  "bound_geometry 0
     (resolve_ficks (example_model [True, False, False] [10, 1, 1]) ''a'' ''b'' 0
        (constant_store (example_ficks (Some 1) None),
         [(''a'', box ''a'' (20, 22) (0, 1) (0, 1) [(''b'', Ficks 0)]),
          (''b'', box ''b'' (0, 2) (0, 1) (0, 1) [(''a'', Ficks 0)])]))
     = Inr (Some 1, Some 10)
   \<and> \<not> (10 * 2 \<le> (10::real))"
  by (simp add: example_defs)

subsection \<open>Setting quantities\<close>

lemma py_index_length:
  "length xs = length ys \<Longrightarrow> py_index xs i = py_index ys i"
  by (simp add: py_index_def)

lemma py_index_less:
  "py_index xs i = Inr j \<Longrightarrow> j < length xs"
  by (auto simp: py_index_def Let_def split: if_splits)

lemma set_q_loop_unfold:
  assumes "length (state_compartment (sys_state self)) = length q"
  shows "set_q_loop self mv mn x (i # idxs) q =
     bind_err
       (if mv
        then bind_err (py_index q i) (\<lambda>j.
               case map_of (sys_model self) (state_compartment (sys_state self) ! j) of
                 None \<Rightarrow> Inl KeyError
               | Some c \<Rightarrow> Inr (magnitude (volume c) * x))
        else Inr x)
       (\<lambda>tmp0. bind_err (py_index q i) (\<lambda>j.
               set_q_loop self mv mn x idxs (q[j := (if mn then tmp0 * NA else tmp0)])))"
  by (simp add: py_index_length [OF assms] Let_def)

lemma set_q_loop_step:
  assumes "set_q_loop self mv mn x (i # idxs) q = Inr q'"
    "length (state_compartment (sys_state self)) = length q"
  shows "\<exists>j t. py_index q i = Inr j \<and> loop_value self mv mn x j = Some t
           \<and> set_q_loop self mv mn x idxs (q[j := t]) = Inr q'"
proof -
  from assms(1) obtain tmp0 where
    t0: "(if mv
        then bind_err (py_index q i) (\<lambda>j.
               case map_of (sys_model self) (state_compartment (sys_state self) ! j) of
                 None \<Rightarrow> Inl KeyError
               | Some c \<Rightarrow> Inr (magnitude (volume c) * x))
        else Inr x) = Inr tmp0" and
    r: "bind_err (py_index q i) (\<lambda>j.
               set_q_loop self mv mn x idxs (q[j := (if mn then tmp0 * NA else tmp0)])) = Inr q'"
    unfolding set_q_loop_unfold [OF assms(2)] by (blast dest: bind_err_Inr)
  from r obtain j where j: "py_index q i = Inr j"
    and rest: "set_q_loop self mv mn x idxs (q[j := (if mn then tmp0 * NA else tmp0)]) = Inr q'"
    by (blast dest: bind_err_Inr)
  have "loop_value self mv mn x j = Some (if mn then tmp0 * NA else tmp0)"
    using t0 j by (auto simp: loop_value_def bind_err_simps split: if_splits option.splits)
  then show ?thesis using j rest by blast
qed

lemma set_q_loop_step_total:
  assumes "length (state_compartment (sys_state self)) = length q"
    "py_index q i = Inr j" "loop_value self mv mn x j = Some t"
  shows "set_q_loop self mv mn x (i # idxs) q = set_q_loop self mv mn x idxs (q[j := t])"
proof (cases mv)
  case False
  then show ?thesis
    using assms(2,3) unfolding set_q_loop_unfold [OF assms(1)]
    by (auto simp: loop_value_def bind_err_simps)
next
  case True
  then obtain c where c: "map_of (sys_model self) (state_compartment (sys_state self) ! j) = Some c"
    and t: "t = (if mn then magnitude (volume c) * x * NA else magnitude (volume c) * x)"
    using assms(3) by (auto simp: loop_value_def split: if_splits)
  show ?thesis
    using True assms(2) c t unfolding set_q_loop_unfold [OF assms(1)]
    by (simp add: bind_err_simps)
qed

lemma set_q_loop_total:
  assumes "length (state_compartment (sys_state self)) = length q"
    "\<forall>i \<in> set idxs. \<exists>j t. py_index q i = Inr j \<and> loop_value self mv mn x j = Some t"
  shows "\<exists>q'. set_q_loop self mv mn x idxs q = Inr q'"
  using assms
proof (induction idxs arbitrary: q)
  case Nil
  then show ?case by simp
next
  case (Cons i idxs)
  from Cons.prems(2) obtain j t where j: "py_index q i = Inr j"
    and t: "loop_value self mv mn x j = Some t"
    by auto
  have len: "length (state_compartment (sys_state self)) = length (q[j := t])"
    using Cons.prems(1) by simp
  have pq: "\<And>k. py_index (q[j := t]) k = py_index q k"
    by (rule py_index_length) simp
  have "\<forall>i \<in> set idxs. \<exists>j' t'. py_index (q[j := t]) i = Inr j' \<and> loop_value self mv mn x j' = Some t'"
    using Cons.prems(2) pq by simp
  from Cons.IH [OF len this] show ?case
    unfolding set_q_loop_step_total [OF Cons.prems(1) j t] .
qed

lemma set_q_loop_Inr:
  assumes "set_q_loop self mv mn x idxs q = Inr q'"
    "length (state_compartment (sys_state self)) = length q"
  shows "length q' = length q
     \<and> (\<forall>i \<in> set idxs. \<exists>j. py_index q i = Inr j \<and> loop_value self mv mn x j = Some (q' ! j))
     \<and> (\<forall>j. (\<forall>i \<in> set idxs. py_index q i \<noteq> Inr j) \<longrightarrow> q' ! j = q ! j)"
  using assms
proof (induction idxs arbitrary: q)
  case Nil
  then show ?case by simp
next
  case (Cons i idxs)
  from set_q_loop_step [OF Cons.prems] obtain j t where
    j: "py_index q i = Inr j" and t: "loop_value self mv mn x j = Some t" and
    rest: "set_q_loop self mv mn x idxs (q[j := t]) = Inr q'"
    by blast
  have len: "length (state_compartment (sys_state self)) = length (q[j := t])"
    using Cons.prems(2) by simp
  note IH = Cons.IH [OF rest len]
  have pq: "\<And>k. py_index (q[j := t]) k = py_index q k"
    by (rule py_index_length) simp
  have jl: "j < length q" using j by (rule py_index_less)
  have here: "loop_value self mv mn x j = Some (q' ! j)"
  proof (cases "\<exists>k \<in> set idxs. py_index q k = Inr j")
    case True
    then show ?thesis using IH pq by auto
  next
    case False
    then have "q' ! j = (q[j := t]) ! j" using IH pq by simp
    then show ?thesis using t jl by simp
  qed
  show ?case
  proof (intro conjI ballI allI impI)
    show "length q' = length q" using IH by simp
  next
    fix k assume "k \<in> set (i # idxs)"
    then show "\<exists>j. py_index q k = Inr j \<and> loop_value self mv mn x j = Some (q' ! j)"
      using here j IH pq by auto
  next
    fix m assume m: "\<forall>k \<in> set (i # idxs). py_index q k \<noteq> Inr m"
    then have "m \<noteq> j" using j by auto
    moreover have "q' ! m = (q[j := t]) ! m" using IH pq m by simp
    ultimately show "q' ! m = q ! m" by simp
  qed
qed

text \<open>
  The flags that \<^verbatim>\<open>set_q\<close> derives from an input it accepts, and the value of the loop
  with these flags.
\<close>

lemma set_q_accepted:
  assumes "accepted Q"
  shows "\<exists>mv mn x.
           set_q self idxs Q =
             bind_err (set_q_loop self mv mn x idxs (q_val (sys_state self)))
               (\<lambda>q. Inr (self\<lparr>sys_state := (sys_state self)\<lparr>q_val := q\<rparr>\<rparr>))
         \<and> (\<forall>j. loop_value self mv mn x j = count_of self Q j)"
proof (cases Q)
  case (Number x)
  have "set_q self idxs Q =
             bind_err (set_q_loop self False False x idxs (q_val (sys_state self)))
               (\<lambda>q. Inr (self\<lparr>sys_state := (sys_state self)\<lparr>q_val := q\<rparr>\<rparr>))"
    using Number by (simp add: set_q_def bind_err_simps)
  moreover have "\<forall>j. loop_value self False False x j = count_of self Q j"
    using Number by (simp add: loop_value_def count_of_def)
  ultimately show ?thesis by blast
next
  case (Quantity x u)
  consider (conc) "u = unit_mol_per_L" | (mol) "u \<noteq> unit_mol_per_L" "u = unit_mol"
    | (count) "u \<noteq> unit_mol_per_L" "u \<noteq> unit_mol" "u = unit_dimensionless"
    | (other) "u \<noteq> unit_mol_per_L" "u \<noteq> unit_mol" "u \<noteq> unit_dimensionless"
    by blast
  then show ?thesis
  proof cases
    case other
    then show ?thesis using assms Quantity by (simp add: accepted_def)
  next
    case conc
    have "set_q self idxs Q =
             bind_err (set_q_loop self True True x idxs (q_val (sys_state self)))
               (\<lambda>q. Inr (self\<lparr>sys_state := (sys_state self)\<lparr>q_val := q\<rparr>\<rparr>))"
      using Quantity conc by (simp add: set_q_def bind_err_simps)
    moreover have "\<forall>j. loop_value self True True x j = count_of self Q j"
      using Quantity conc by (simp add: loop_value_def count_of_def option.map_comp comp_def mult_ac)
    ultimately show ?thesis by blast
  next
    case mol
    have "set_q self idxs Q =
             bind_err (set_q_loop self False True x idxs (q_val (sys_state self)))
               (\<lambda>q. Inr (self\<lparr>sys_state := (sys_state self)\<lparr>q_val := q\<rparr>\<rparr>))"
      using Quantity mol by (simp add: set_q_def bind_err_simps)
    moreover have "\<forall>j. loop_value self False True x j = count_of self Q j"
      using Quantity mol by (simp add: loop_value_def count_of_def)
    ultimately show ?thesis by blast
  next
    case count
    have "set_q self idxs Q =
             bind_err (set_q_loop self False False x idxs (q_val (sys_state self)))
               (\<lambda>q. Inr (self\<lparr>sys_state := (sys_state self)\<lparr>q_val := q\<rparr>\<rparr>))"
      using Quantity count by (simp add: set_q_def bind_err_simps)
    moreover have "\<forall>j. loop_value self False False x j = count_of self Q j"
      using Quantity count by (simp add: loop_value_def count_of_def)
    ultimately show ?thesis by blast
  qed
qed

lemma set_q_refused:
  "\<not> accepted Q \<Longrightarrow> set_q self idxs Q = Inl (ValueError Bad_quantity_units)"
  by (cases Q) (auto simp: accepted_def set_q_def bind_err_simps)

lemma set_q_Inr:
  assumes "set_q self idxs Q = Inr self'"
    "length (state_compartment (sys_state self)) = length (q_val (sys_state self))"
  shows "accepted Q"
    and "self' = self\<lparr>sys_state := (sys_state self)\<lparr>q_val := q_val (sys_state self')\<rparr>\<rparr>"
    and "length (q_val (sys_state self')) = length (q_val (sys_state self))"
    and "\<forall>i \<in> set idxs. \<exists>j. py_index (q_val (sys_state self)) i = Inr j
            \<and> count_of self Q j = Some (q_val (sys_state self') ! j)"
    and "\<forall>j. (\<forall>i \<in> set idxs. py_index (q_val (sys_state self)) i \<noteq> Inr j) \<longrightarrow>
            q_val (sys_state self') ! j = q_val (sys_state self) ! j"
proof -
  show a: "accepted Q"
    using assms(1) set_q_refused [of Q self idxs] by auto
  from set_q_accepted [OF a, of self idxs] obtain mv mn x where
    u: "set_q self idxs Q =
             bind_err (set_q_loop self mv mn x idxs (q_val (sys_state self)))
               (\<lambda>q. Inr (self\<lparr>sys_state := (sys_state self)\<lparr>q_val := q\<rparr>\<rparr>))"
    and v: "\<forall>j. loop_value self mv mn x j = count_of self Q j"
    by blast
  from assms(1) obtain q where
    loop: "set_q_loop self mv mn x idxs (q_val (sys_state self)) = Inr q" and
    s: "self' = self\<lparr>sys_state := (sys_state self)\<lparr>q_val := q\<rparr>\<rparr>"
    unfolding u by (auto dest: bind_err_Inr)
  have q: "q_val (sys_state self') = q" using s by simp
  note L = set_q_loop_Inr [OF loop assms(2)]
  show "self' = self\<lparr>sys_state := (sys_state self)\<lparr>q_val := q_val (sys_state self')\<rparr>\<rparr>"
    using s q by simp
  show "length (q_val (sys_state self')) = length (q_val (sys_state self))"
    using L q by simp
  show "\<forall>i \<in> set idxs. \<exists>j. py_index (q_val (sys_state self)) i = Inr j
            \<and> count_of self Q j = Some (q_val (sys_state self') ! j)"
    using L q v by auto
  show "\<forall>j. (\<forall>i \<in> set idxs. py_index (q_val (sys_state self)) i \<noteq> Inr j) \<longrightarrow>
            q_val (sys_state self') ! j = q_val (sys_state self) ! j"
    using L q by simp
qed

lemma set_q_total:
  assumes "length (state_compartment (sys_state self)) = length (q_val (sys_state self))"
    "accepted Q"
    "\<forall>i \<in> set idxs. \<exists>j. py_index (q_val (sys_state self)) i = Inr j \<and> count_of self Q j \<noteq> None"
  shows "\<exists>self'. set_q self idxs Q = Inr self'"
proof -
  from set_q_accepted [OF assms(2), of self idxs] obtain mv mn x where
    u: "set_q self idxs Q =
             bind_err (set_q_loop self mv mn x idxs (q_val (sys_state self)))
               (\<lambda>q. Inr (self\<lparr>sys_state := (sys_state self)\<lparr>q_val := q\<rparr>\<rparr>))"
    and v: "\<forall>j. loop_value self mv mn x j = count_of self Q j"
    by blast
  have "\<forall>i \<in> set idxs. \<exists>j t. py_index (q_val (sys_state self)) i = Inr j
          \<and> loop_value self mv mn x j = Some t"
    using assms(3) v by auto
  from set_q_loop_total [OF assms(1) this] show ?thesis
    unfolding u by (auto simp: bind_err_simps)
qed

lemma addressed_iff:
  "addressed q idxs j = (\<exists>i \<in> set idxs. py_index q i = Inr j)"
  by (simp add: addressed_def list_ex_iff)

lemmas unit_defs = unit_mol_per_L_def unit_mol_def unit_dimensionless_def

text \<open>
  C8 claims that \<^verbatim>\<open>set_q\<close> converts a concentration to a count and raises only for a
  quantity of another dimension. The code looks at the units, not at the dimension: a
  concentration of 10 millimole per liter is refused with a \<open>ValueError\<close>.
\<close>

theorem set_q_millimolar_counterexample:
  "''millimole / liter'' \<in> set concentration_units
   \<and> set_q example_system [0] (Quantity 10 ''millimole / liter'')
       = Inl (ValueError Bad_quantity_units)"
  by (simp add: concentration_units_def set_q_def unit_defs bind_err_simps)

text \<open>
  C8, amended: \<^verbatim>\<open>set_q\<close> accepts a bare number and a quantity whose units are mol/L, mol
  or dimensionless, and raises a \<open>ValueError\<close>, storing nothing, for a quantity in any
  other units, whatever its dimension. For an accepted input it returns exactly when
  every index of the list addresses a position of the state (and, for mol/L, the
  compartment of that position is in the model). Every addressed position then holds the
  count of the input: for mol/L the concentration times the volume of the compartment of
  that position times the Avogadro constant, for mol the amount times the Avogadro
  constant, for a bare number or a dimensionless quantity the number itself; every
  other position, and the rest of the system, is as it was. The arrays of the state are
  parallel: the state has as many compartment IDs as values.
\<close>

theorem set_q_counts:
  assumes "length (state_compartment (sys_state self)) = length (q_val (sys_state self))"
  shows "((\<exists>self'. set_q self idxs Q = Inr self') =
            (accepted Q
             \<and> (\<forall>i \<in> set idxs. \<exists>j. py_index (q_val (sys_state self)) i = Inr j
                    \<and> count_of self Q j \<noteq> None)))
       \<and> (\<forall>self'. set_q self idxs Q = Inr self' \<longrightarrow>
             self' = self\<lparr>sys_state := (sys_state self)\<lparr>q_val := q_val (sys_state self')\<rparr>\<rparr>
           \<and> length (q_val (sys_state self')) = length (q_val (sys_state self))
           \<and> (\<forall>j < length (q_val (sys_state self)).
                 q_val (sys_state self') ! j =
                   (if addressed (q_val (sys_state self)) idxs j then the (count_of self Q j)
                    else q_val (sys_state self) ! j)))
       \<and> (\<forall>x u. u \<noteq> unit_mol_per_L \<and> u \<noteq> unit_mol \<and> u \<noteq> unit_dimensionless
            \<longrightarrow> set_q self idxs (Quantity x u) = Inl (ValueError Bad_quantity_units))"
proof (intro conjI allI impI)
  show "(\<exists>self'. set_q self idxs Q = Inr self') =
            (accepted Q
             \<and> (\<forall>i \<in> set idxs. \<exists>j. py_index (q_val (sys_state self)) i = Inr j
                    \<and> count_of self Q j \<noteq> None))"
  proof
    assume "\<exists>self'. set_q self idxs Q = Inr self'"
    then obtain self' where r: "set_q self idxs Q = Inr self'" by blast
    show "accepted Q
             \<and> (\<forall>i \<in> set idxs. \<exists>j. py_index (q_val (sys_state self)) i = Inr j
                    \<and> count_of self Q j \<noteq> None)"
      using set_q_Inr(1,4) [OF r assms] by fastforce
  next
    assume "accepted Q
             \<and> (\<forall>i \<in> set idxs. \<exists>j. py_index (q_val (sys_state self)) i = Inr j
                    \<and> count_of self Q j \<noteq> None)"
    then show "\<exists>self'. set_q self idxs Q = Inr self'"
      using set_q_total [OF assms] by blast
  qed
next
  fix self'
  assume r: "set_q self idxs Q = Inr self'"
  note R = set_q_Inr [OF r assms]
  show "self' = self\<lparr>sys_state := (sys_state self)\<lparr>q_val := q_val (sys_state self')\<rparr>\<rparr>"
    by (rule R(2))
  show "length (q_val (sys_state self')) = length (q_val (sys_state self))"
    by (rule R(3))
  fix j
  assume "j < length (q_val (sys_state self))"
  show "q_val (sys_state self') ! j =
          (if addressed (q_val (sys_state self)) idxs j then the (count_of self Q j)
           else q_val (sys_state self) ! j)"
  proof (cases "addressed (q_val (sys_state self)) idxs j")
    case True
    then obtain i where "i \<in> set idxs" "py_index (q_val (sys_state self)) i = Inr j"
      unfolding addressed_iff by blast
    then have "count_of self Q j = Some (q_val (sys_state self') ! j)"
      using R(4) by fastforce
    then show ?thesis using True by simp
  next
    case False
    then have "\<forall>i \<in> set idxs. py_index (q_val (sys_state self)) i \<noteq> Inr j"
      unfolding addressed_iff by blast
    then show ?thesis using R(5) False by simp
  qed
next
  fix x u
  assume "u \<noteq> unit_mol_per_L \<and> u \<noteq> unit_mol \<and> u \<noteq> unit_dimensionless"
  then show "set_q self idxs (Quantity x u) = Inl (ValueError Bad_quantity_units)"
    by (simp add: set_q_def bind_err_simps)
qed

text \<open>
  A state of two positions whose compartments have the volumes 1 and 2. A concentration
  of \<open>1/100\<close> mol/L set at the indices 0 and \<open>-1\<close> gives the counts \<open>NA/100\<close> and
  \<open>NA/50\<close>; an amount of 2 mol set at index 1 gives \<open>2 NA\<close> there and leaves position 0
  as it was; the bare number 7 set at index 0 is stored as it is; a quantity in grams
  is refused; the index 2 addresses no position, and \<^verbatim>\<open>set_q\<close> does not return.
\<close>

theorem set_q_counts_witness:
  "length (state_compartment (sys_state example_system)) = length (q_val (sys_state example_system))
   \<and> (\<exists>self'. set_q example_system [0, - 1] (Quantity (1 / 100) unit_mol_per_L) = Inr self')
   \<and> set_q example_system [0, - 1] (Quantity (1 / 100) unit_mol_per_L)
       = Inr (example_system\<lparr>sys_state := example_state\<lparr>q_val := [NA / 100, NA / 50]\<rparr>\<rparr>)
   \<and> addressed (q_val (sys_state example_system)) [0, - 1] 1
   \<and> the (count_of example_system (Quantity (1 / 100) unit_mol_per_L) 1) = NA / 50
   \<and> set_q example_system [1] (Quantity 2 unit_mol)
       = Inr (example_system\<lparr>sys_state := example_state\<lparr>q_val := [0, 2 * NA]\<rparr>\<rparr>)
   \<and> \<not> addressed (q_val (sys_state example_system)) [1] 0
   \<and> set_q example_system [0] (Number 7)
       = Inr (example_system\<lparr>sys_state := example_state\<lparr>q_val := [7, 0]\<rparr>\<rparr>)
   \<and> set_q example_system [0, - 1] (Quantity 5 ''gram'') = Inl (ValueError Bad_quantity_units)
   \<and> \<not> (\<exists>self'. set_q example_system [2] (Number 7) = Inr self')"
proof -
  have l: "length (state_compartment (sys_state example_system)) = length (q_val (sys_state example_system))"
    by (simp add: example_system_def example_state_def)
  note t = set_q_counts [OF l]
  have ex: "\<exists>self'. set_q example_system [0, - 1] (Quantity (1 / 100) unit_mol_per_L) = Inr self'"
  proof -
    have "accepted (Quantity (1 / 100) unit_mol_per_L)"
      by (simp add: accepted_def)
    moreover have "\<forall>i \<in> set [0, - 1]. \<exists>j. py_index (q_val (sys_state example_system)) i = Inr j
                    \<and> count_of example_system (Quantity (1 / 100) unit_mol_per_L) j \<noteq> None"
      by (simp add: py_index_def count_of_def example_system_def example_state_def)
    ultimately show ?thesis
      using t [of "[0, - 1]" "Quantity (1 / 100) unit_mol_per_L"] by blast
  qed
  have s: "set_q example_system [0, - 1] (Quantity (1 / 100) unit_mol_per_L)
       = Inr (example_system\<lparr>sys_state := example_state\<lparr>q_val := [NA / 100, NA / 50]\<rparr>\<rparr>)"
    by (simp add: set_q_def bind_err_simps py_index_def example_system_def example_state_def box_def)
  have a: "addressed (q_val (sys_state example_system)) [0, - 1] 1"
    by (simp add: addressed_def py_index_def example_system_def example_state_def)
  have c: "the (count_of example_system (Quantity (1 / 100) unit_mol_per_L) 1) = NA / 50"
  proof -
    note t2 = conjunct1 [OF conjunct2 [OF t [of "[0, - 1]" "Quantity (1 / 100) unit_mol_per_L"]]]
    note u = mp [OF spec [OF t2] s]
    note v = conjunct2 [OF conjunct2 [OF u]]
    have "(1::nat) < length (q_val (sys_state example_system))"
      by (simp add: example_system_def example_state_def)
    from v [rule_format, OF this] a
    have "q_val (sys_state (example_system\<lparr>sys_state := example_state\<lparr>q_val := [NA / 100, NA / 50]\<rparr>\<rparr>)) ! 1
            = the (count_of example_system (Quantity (1 / 100) unit_mol_per_L) 1)"
      by simp
    then show ?thesis by simp
  qed
  have m: "set_q example_system [1] (Quantity 2 unit_mol)
       = Inr (example_system\<lparr>sys_state := example_state\<lparr>q_val := [0, 2 * NA]\<rparr>\<rparr>)"
    by (simp add: set_q_def unit_defs bind_err_simps py_index_def example_system_def example_state_def)
  have na: "\<not> addressed (q_val (sys_state example_system)) [1] 0"
    by (simp add: addressed_def py_index_def example_system_def example_state_def)
  have n: "set_q example_system [0] (Number 7)
       = Inr (example_system\<lparr>sys_state := example_state\<lparr>q_val := [7, 0]\<rparr>\<rparr>)"
    by (simp add: set_q_def bind_err_simps py_index_def example_system_def example_state_def)
  have e: "set_q example_system [0, - 1] (Quantity 5 ''gram'') = Inl (ValueError Bad_quantity_units)"
    using t [of "[0, - 1]"] by (simp add: unit_defs)
  have o: "\<not> (\<exists>self'. set_q example_system [2] (Number 7) = Inr self')"
    using t [of "[2]" "Number 7"]
    by (simp add: py_index_def example_system_def example_state_def)
  show ?thesis using l ex s a c m na n e o by blast
qed

subsection \<open>The derivative builder\<close>

lemma getitem_Some: "map_of d k = Some v \<Longrightarrow> getitem d k = Inr v"
  by (simp add: getitem_def)

lemma q_list_loop_total:
  "j + length xs \<le> length stoich \<Longrightarrow>
   \<forall>x \<in> set xs. lookup_index st c x = Inr (index_of st c x) \<Longrightarrow>
   q_list_loop st c stoich j xs acc =
     Inr (fst acc @ concat (map2 (\<lambda>x m. replicate (nat m) (index_of st c x)) xs (drop j stoich)),
          snd acc + sum_list (take (length xs) (drop j stoich)))"
proof (induction xs arbitrary: j acc)
  case Nil
  then show ?case by simp
next
  case (Cons x xs)
  have j: "j < length stoich" using Cons.prems(1) by simp
  have d: "drop j stoich = stoich ! j # drop (Suc j) stoich"
    using j by (simp add: Cons_nth_drop_Suc)
  have l: "lookup_index st c x = Inr (index_of st c x)" using Cons.prems(2) by simp
  have n: "Suc j + length xs \<le> length stoich" using Cons.prems(1) by simp
  have r: "\<forall>x \<in> set xs. lookup_index st c x = Inr (index_of st c x)" using Cons.prems(2) by simp
  show ?case
    unfolding q_list_loop.simps l bind_err_simps item_simps(1) [OF j] Cons.IH [OF n r] d
    by (simp add: add.assoc)
qed

lemma py_div_pow:
  "magnitude v \<noteq> 0 \<Longrightarrow>
   py_div (Num k) (py_pow v n) = Inr (Num (result_of [k, v] (magnitude k / magnitude v ^ n)))"
  by (simp add: py_pow_def result_of_def)

lemma reaction_term_total:
  assumes "direction_ok st c xs stoich"
  shows "reaction_term st c k xs stoich = Inr (mass_action_term st c k xs stoich)"
proof -
  have len: "0 + length xs \<le> length stoich"
    and ix: "\<forall>x \<in> set xs. lookup_index st (cID c) x = Inr (index_of st (cID c) x)"
    and vol: "1 < order_of xs stoich \<longrightarrow> magnitude (volume c) \<noteq> 0"
    using assms by (simp_all add: direction_ok_def)
  have q: "q_list_loop st (cID c) stoich 0 xs ([], 0) =
      Inr (concat (map2 (\<lambda>x m. replicate (nat m) (index_of st (cID c) x)) xs stoich),
           order_of xs stoich)"
    using q_list_loop_total [OF len ix, of "([], 0)"] by (simp add: order_of_def)
  show ?thesis
  proof (cases "1 < order_of xs stoich")
    case True
    then have "magnitude (volume c) \<noteq> 0" using vol by simp
    then show ?thesis
      using True unfolding reaction_term_def q bind_err_simps
      by (simp add: py_div_pow bind_err_simps mass_action_term_def del: py_div.simps)
  next
    case False
    then show ?thesis
      unfolding reaction_term_def q bind_err_simps
      by (simp add: mass_action_term_def)
  qed
qed

lemma append_term_total:
  assumes "g \<longrightarrow> direction_ok st c xs stoich"
  shows "append_term g (reaction_term st c k xs stoich) ts =
     Inr (ts @ (if g then [mass_action_term st c k xs stoich] else []))"
proof (cases g)
  case True
  then have "direction_ok st c xs stoich" using assms by simp
  then show ?thesis
    using True reaction_term_total [of st c xs stoich k]
    by (simp add: append_term_def bind_err_simps)
next
  case False
  then show ?thesis by (simp add: append_term_def)
qed

lemma reaction_step_total:
  assumes "reaction_ok st c s r"
  shows "reaction_step st c s r acc =
     Inr (fst acc @ reaction_sources st c s r, snd acc @ reaction_sinks st c s r)"
proof -
  consider (reactant) "s \<in> set (reactant_IDs r)"
    | (product) "s \<notin> set (reactant_IDs r)" "s \<in> set (product_IDs r)"
    | (none) "s \<notin> set (reactant_IDs r)" "s \<notin> set (product_IDs r)"
    by blast
  then show ?thesis
  proof cases
    case reactant
    have f: "0 < magnitude (kf r) \<longrightarrow> direction_ok st c (reactants r) (stoich_r r)"
      and b: "0 < magnitude (kr r) \<longrightarrow> direction_ok st c (products r) (stoich_p r)"
      using assms reactant by (simp_all add: reaction_ok_def)
    show ?thesis
      using reactant
      unfolding reaction_step_def append_term_total [OF f] append_term_total [OF b]
        bind_err_simps
      by (simp add: reaction_sources_def reaction_sinks_def)
  next
    case product
    have f: "0 < magnitude (kf r) \<longrightarrow> direction_ok st c (reactants r) (stoich_r r)"
      and b: "0 < magnitude (kr r) \<longrightarrow> direction_ok st c (products r) (stoich_p r)"
      using assms product by (simp_all add: reaction_ok_def)
    show ?thesis
      using product
      unfolding reaction_step_def append_term_total [OF f] append_term_total [OF b]
        bind_err_simps
      by (simp add: reaction_sources_def reaction_sinks_def)
  next
    case none
    then show ?thesis
      by (simp add: reaction_step_def reaction_sources_def reaction_sinks_def)
  qed
qed

lemma foldE_reaction_step_total:
  "\<forall>r \<in> set rs. reaction_ok st c s r \<Longrightarrow>
   foldE (reaction_step st c s) rs acc =
     Inr (fst acc @ concat (map (reaction_sources st c s) rs),
          snd acc @ concat (map (reaction_sinks st c s) rs))"
proof (induction rs arbitrary: acc)
  case Nil
  then show ?case by simp
next
  case (Cons r rs)
  have r: "reaction_ok st c s r" and rs: "\<forall>r \<in> set rs. reaction_ok st c s r"
    using Cons.prems by simp_all
  show ?case
    unfolding foldE.simps reaction_step_total [OF r] bind_err_simps Cons.IH [OF rs]
    by simp
qed

lemma connection_step_total:
  assumes "resolved e" "transports s e \<longrightarrow> connection_ok self c s e"
  shows "connection_step self c s i e acc =
     Inr (if transports s e
          then (fst acc @ [connection_source self s e], snd acc @ [connection_sink c s i e])
          else acc)"
proof -
  from assms(1) obtain rates where r: "species_rates (snd e) = Inr rates"
    by (auto simp: resolved_def split: sum.splits)
  show ?thesis
  proof (cases "map_of rates s")
    case None
    then show ?thesis using r
      by (simp add: connection_step_def bind_err_simps transports_def)
  next
    case (Some v)
    have tr: "transports s e" using r Some by (simp add: transports_def)
    have ok: "connection_ok self c s e" using assms(2) tr by simp
    from ok r Some obtain t where v: "v = Tuple t" and lt: "1 < length t"
      by (auto simp: connection_ok_def split: rate.splits)
    have l0: "0 < length t" using lt by linarith
    have ko: "k_out (snd e) s = t ! 0" and ki: "k_in (snd e) s = t ! 1"
      using r Some v by (simp_all add: k_out_def k_in_def)
    from ok obtain nb where nb: "map_of (sys_model self) (fst e) = Some nb"
      by (auto simp: connection_ok_def)
    have nv: "neighbour_volume self (fst e) = volume nb"
      using nb by (simp add: neighbour_volume_def)
    have vc: "magnitude (volume c) \<noteq> 0" and vn: "magnitude (volume nb) \<noteq> 0"
      and ix: "lookup_index (sys_state self) (fst e) s = Inr (index_of (sys_state self) (fst e) s)"
      using ok nv by (simp_all add: connection_ok_def)
    show ?thesis
      using tr
      unfolding connection_step_def r bind_err_simps Some option.case v tuple_item_def rate.case
        item_simps(1) [OF l0] item_simps(1) [OF lt] py_div_nonzero [OF vc] py_div_nonzero [OF vn]
        getitem_Some [OF nb] ix
      by (simp add: connection_source_def connection_sink_def ko ki nv)
  qed
qed

lemma foldE_connection_step_total:
  "\<forall>e \<in> set es. resolved e \<and> (transports s e \<longrightarrow> connection_ok self c s e) \<Longrightarrow>
   foldE (connection_step self c s i) es acc =
     Inr (fst acc @ map (connection_source self s) (filter (transports s) es),
          snd acc @ map (connection_sink c s i) (filter (transports s) es))"
proof (induction es arbitrary: acc)
  case Nil
  then show ?case by simp
next
  case (Cons e es)
  have e: "resolved e" "transports s e \<longrightarrow> connection_ok self c s e"
    and es: "\<forall>e \<in> set es. resolved e \<and> (transports s e \<longrightarrow> connection_ok self c s e)"
    using Cons.prems by simp_all
  show ?case
    unfolding foldE.simps connection_step_total [OF e] bind_err_simps Cons.IH [OF es]
    by simp
qed

lemma builder_at_total:
  assumes "position_ok self i"
    "map_of (sys_model self) (state_compartment (sys_state self) ! i) = Some c"
  shows "builder_at self i = Inr (builder_of self c (state_species (sys_state self) ! i) i)"
proof -
  have ic: "i < length (state_compartment (sys_state self))"
    and isp: "i < length (state_species (sys_state self))"
    and rs: "\<forall>r \<in> set (reactions c).
               reaction_ok (sys_state self) c (state_species (sys_state self) ! i) r"
    and es: "\<forall>e \<in> set (connections c). resolved e
               \<and> (transports (state_species (sys_state self) ! i) e \<longrightarrow>
                    connection_ok self c (state_species (sys_state self) ! i) e)"
    using assms by (simp_all add: position_ok_def list_all_iff)
  show ?thesis
    unfolding builder_at_def item_simps(1) [OF ic] item_simps(1) [OF isp] bind_err_simps
      getitem_Some [OF assms(2)] foldE_reaction_step_total [OF rs]
      foldE_connection_step_total [OF es]
    by (simp add: builder_of_def)
qed

lemma foldE_collect_total:
  "\<forall>i \<in> set is. f i = Inr (g i) \<Longrightarrow>
   foldE (\<lambda>i acc. bind_err (f i) (\<lambda>b. Inr (acc @ [b]))) is acc = Inr (acc @ map g is)"
proof (induction "is" arbitrary: acc)
  case Nil
  then show ?case by simp
next
  case (Cons i "is")
  have i: "f i = Inr (g i)" and r: "\<forall>i \<in> set is. f i = Inr (g i)"
    using Cons.prems by simp_all
  show ?case
    unfolding foldE.simps i bind_err_simps Cons.IH [OF r] by simp
qed

text \<open>
  On a well formed system \<^verbatim>\<open>_build_dqdt\<close> returns, and what it returns is, position by
  position, the builder described above.
\<close>

lemma build_dqdt_total:
  assumes "well_formed self"
  shows "build_dqdt self = Inr (map (expected_builder self) [0..<state_size (sys_state self)])"
proof -
  have "\<forall>i \<in> set [0..<state_size (sys_state self)]. builder_at self i = Inr (expected_builder self i)"
  proof
    fix i assume "i \<in> set [0..<state_size (sys_state self)]"
    then have p: "position_ok self i"
      using assms by (simp add: well_formed_def list_all_iff)
    then obtain c where c: "map_of (sys_model self) (state_compartment (sys_state self) ! i) = Some c"
      by (auto simp: position_ok_def split: option.splits)
    show "builder_at self i = Inr (expected_builder self i)"
      using builder_at_total [OF p c] c by (simp add: expected_builder_def)
  qed
  from foldE_collect_total [OF this, of "[]"] show ?thesis
    by (simp add: build_dqdt_def)
qed

lemma build_dqdt_at:
  assumes "well_formed self" "i < state_size (sys_state self)"
    "map_of (sys_model self) (state_compartment (sys_state self) ! i) = Some c"
  shows "\<exists>dqdt. build_dqdt self = Inr dqdt \<and> length dqdt = state_size (sys_state self)
     \<and> dqdt ! i = builder_of self c (state_species (sys_state self) ! i) i"
  using assms(2,3) by (simp add: build_dqdt_total [OF assms(1)] expected_builder_def)

lemma reaction_term_form:
  assumes "reaction_ok st c s r"
    "t \<in> set (reaction_sources st c s r @ reaction_sinks st c s r)"
  shows "\<exists>k xs stoich.
           ((k, xs, stoich) = (kf r, reactants r, stoich_r r)
            \<or> (k, xs, stoich) = (kr r, products r, stoich_p r))
         \<and> 0 < magnitude k
         \<and> direction_ok st c xs stoich
         \<and> (1 < order_of xs stoich \<longrightarrow>
              fst t = Num (result_of [k, volume c]
                            (magnitude k / magnitude (volume c) ^ nat (order_of xs stoich - 1))))
         \<and> (order_of xs stoich = 1 \<longrightarrow> fst t = Num k)
         \<and> snd t = concat (map2 (\<lambda>x m. replicate (nat m) (index_of st (cID c) x)) xs stoich)"
proof -
  have part: "s \<in> set (reactant_IDs r) \<or> s \<in> set (product_IDs r)"
    using assms(2) by (auto simp: reaction_sources_def reaction_sinks_def split: if_splits)
  from assms(2) consider
    (f) "0 < magnitude (kf r)" "t = mass_action_term st c (kf r) (reactants r) (stoich_r r)"
    | (b) "0 < magnitude (kr r)" "t = mass_action_term st c (kr r) (products r) (stoich_p r)"
    by (auto simp: reaction_sources_def reaction_sinks_def split: if_splits)
  then show ?thesis
  proof cases
    case f
    have "direction_ok st c (reactants r) (stoich_r r)"
      using assms(1) part f(1) by (simp add: reaction_ok_def)
    then show ?thesis
      using f by (intro exI [of _ "kf r"] exI [of _ "reactants r"] exI [of _ "stoich_r r"])
        (simp add: mass_action_term_def)
  next
    case b
    have "direction_ok st c (products r) (stoich_p r)"
      using assms(1) part b(1) by (simp add: reaction_ok_def)
    then show ?thesis
      using b by (intro exI [of _ "kr r"] exI [of _ "products r"] exI [of _ "stoich_p r"])
        (simp add: mass_action_term_def)
  qed
qed

lemma well_formed_reactions:
  assumes "well_formed self" "i < state_size (sys_state self)"
    "map_of (sys_model self) (state_compartment (sys_state self) ! i) = Some c"
  shows "\<forall>r \<in> set (reactions c).
           reaction_ok (sys_state self) c (state_species (sys_state self) ! i) r"
proof -
  have "position_ok self i"
    using assms(1,2) by (simp add: well_formed_def list_all_iff)
  then show ?thesis using assms(3) by (simp add: position_ok_def list_all_iff)
qed

text \<open>
  C1: on a well formed system \<^verbatim>\<open>_build_dqdt\<close> returns a builder for every state position.
  The sources and the sinks of the position \<open>i\<close> (compartment \<open>c\<close>, species \<open>s\<close>) begin with
  the terms of the reactions of \<open>c\<close>, in order. Every term of a reaction in which \<open>s\<close>
  participates belongs to a direction of the reaction, forward or reverse, with a
  positive rate constant \<open>k\<close> and total stoichiometric order \<open>n\<close>: its rate constant is
  \<open>k / V^(n-1)\<close> when \<open>n > 1\<close> and \<open>k\<close> itself when \<open>n = 1\<close>, where \<open>V\<close> is the volume of
  \<open>c\<close>, and its index list repeats the state index of every species of the direction as
  often as its stoichiometric coefficient says.
\<close>

theorem reaction_terms_mass_action:
  assumes "well_formed self" "i < state_size (sys_state self)"
    "map_of (sys_model self) (state_compartment (sys_state self) ! i) = Some c"
    "s = state_species (sys_state self) ! i"
  shows "\<exists>dqdt. build_dqdt self = Inr dqdt \<and> length dqdt = state_size (sys_state self)
     \<and> (\<exists>cs. sources (dqdt ! i) =
            concat (map (reaction_sources (sys_state self) c s) (reactions c)) @ cs)
     \<and> (\<exists>cs. sinks (dqdt ! i) =
            concat (map (reaction_sinks (sys_state self) c s) (reactions c)) @ cs)
     \<and> (\<forall>r \<in> set (reactions c).
         \<forall>t \<in> set (reaction_sources (sys_state self) c s r @ reaction_sinks (sys_state self) c s r).
           \<exists>k xs stoich.
             ((k, xs, stoich) = (kf r, reactants r, stoich_r r)
              \<or> (k, xs, stoich) = (kr r, products r, stoich_p r))
           \<and> 0 < magnitude k
           \<and> direction_ok (sys_state self) c xs stoich
           \<and> (1 < order_of xs stoich \<longrightarrow>
                fst t = Num (result_of [k, volume c]
                              (magnitude k / magnitude (volume c) ^ nat (order_of xs stoich - 1))))
           \<and> (order_of xs stoich = 1 \<longrightarrow> fst t = Num k)
           \<and> snd t = concat (map2 (\<lambda>x m. replicate (nat m)
                                         (index_of (sys_state self) (cID c) x)) xs stoich))"
proof -
  from build_dqdt_at [OF assms(1,2,3)] obtain dqdt where
    d: "build_dqdt self = Inr dqdt" and len: "length dqdt = state_size (sys_state self)" and
    b: "dqdt ! i = builder_of self c s i"
    using assms(4) by auto
  have src: "\<exists>cs. sources (dqdt ! i) =
            concat (map (reaction_sources (sys_state self) c s) (reactions c)) @ cs"
    unfolding b by (simp add: builder_of_def)
  have snk: "\<exists>cs. sinks (dqdt ! i) =
            concat (map (reaction_sinks (sys_state self) c s) (reactions c)) @ cs"
    unfolding b by (simp add: builder_of_def)
  have ok: "\<forall>r \<in> set (reactions c). reaction_ok (sys_state self) c s r"
    using well_formed_reactions [OF assms(1,2,3)] assms(4) by simp
  have form: "\<forall>r \<in> set (reactions c).
         \<forall>t \<in> set (reaction_sources (sys_state self) c s r @ reaction_sinks (sys_state self) c s r).
           \<exists>k xs stoich.
             ((k, xs, stoich) = (kf r, reactants r, stoich_r r)
              \<or> (k, xs, stoich) = (kr r, products r, stoich_p r))
           \<and> 0 < magnitude k
           \<and> direction_ok (sys_state self) c xs stoich
           \<and> (1 < order_of xs stoich \<longrightarrow>
                fst t = Num (result_of [k, volume c]
                              (magnitude k / magnitude (volume c) ^ nat (order_of xs stoich - 1))))
           \<and> (order_of xs stoich = 1 \<longrightarrow> fst t = Num k)
           \<and> snd t = concat (map2 (\<lambda>x m. replicate (nat m)
                                         (index_of (sys_state self) (cID c) x)) xs stoich)"
  proof (intro ballI)
    fix r t
    assume "r \<in> set (reactions c)"
      and t: "t \<in> set (reaction_sources (sys_state self) c s r @ reaction_sinks (sys_state self) c s r)"
    then have "reaction_ok (sys_state self) c s r" using ok by blast
    then show "\<exists>k xs stoich.
             ((k, xs, stoich) = (kf r, reactants r, stoich_r r)
              \<or> (k, xs, stoich) = (kr r, products r, stoich_p r))
           \<and> 0 < magnitude k
           \<and> direction_ok (sys_state self) c xs stoich
           \<and> (1 < order_of xs stoich \<longrightarrow>
                fst t = Num (result_of [k, volume c]
                              (magnitude k / magnitude (volume c) ^ nat (order_of xs stoich - 1))))
           \<and> (order_of xs stoich = 1 \<longrightarrow> fst t = Num k)
           \<and> snd t = concat (map2 (\<lambda>x m. replicate (nat m)
                                         (index_of (sys_state self) (cID c) x)) xs stoich)"
      using t by (rule reaction_term_form)
  qed
  show ?thesis
    using d len src snk form by (intro exI [of _ dqdt] conjI)
qed

text \<open>
  C2: on a well formed system \<^verbatim>\<open>_build_dqdt\<close> returns a builder for every state position.
  For the position \<open>i\<close> (compartment \<open>c\<close>, species \<open>s\<close>) the sinks are the sinks of the
  reactions followed by exactly one term \<open>(k_out / V_c, [i])\<close>, and the sources the
  sources of the reactions followed by exactly one term
  \<open>(k_in / V_neighbour, [the neighbour's state index for s])\<close>, for every connection of
  \<open>c\<close> whose rates contain \<open>s\<close>, in the order of the connections.
\<close>

theorem connection_terms:
  assumes "well_formed self" "i < state_size (sys_state self)"
    "map_of (sys_model self) (state_compartment (sys_state self) ! i) = Some c"
    "s = state_species (sys_state self) ! i"
  shows "\<exists>dqdt. build_dqdt self = Inr dqdt \<and> length dqdt = state_size (sys_state self)
     \<and> sinks (dqdt ! i) =
         concat (map (reaction_sinks (sys_state self) c s) (reactions c))
         @ map (\<lambda>e. (ratio (k_out (snd e) s) (volume c), [i]))
             (filter (transports s) (connections c))
     \<and> sources (dqdt ! i) =
         concat (map (reaction_sources (sys_state self) c s) (reactions c))
         @ map (\<lambda>e. (ratio (k_in (snd e) s) (neighbour_volume self (fst e)),
                      [index_of (sys_state self) (fst e) s]))
             (filter (transports s) (connections c))"
proof -
  from build_dqdt_at [OF assms(1,2,3)] obtain dqdt where
    d: "build_dqdt self = Inr dqdt" and len: "length dqdt = state_size (sys_state self)" and
    b: "dqdt ! i = builder_of self c s i"
    using assms(4) by auto
  have snk: "sinks (dqdt ! i) =
         concat (map (reaction_sinks (sys_state self) c s) (reactions c))
         @ map (\<lambda>e. (ratio (k_out (snd e) s) (volume c), [i]))
             (filter (transports s) (connections c))"
    unfolding b by (simp add: builder_of_def connection_sink_def [abs_def])
  have src: "sources (dqdt ! i) =
         concat (map (reaction_sources (sys_state self) c s) (reactions c))
         @ map (\<lambda>e. (ratio (k_in (snd e) s) (neighbour_volume self (fst e)),
                      [index_of (sys_state self) (fst e) s]))
             (filter (transports s) (connections c))"
    unfolding b by (simp add: builder_of_def connection_source_def [abs_def])
  show ?thesis
    using d len snk src by (intro exI [of _ dqdt] conjI)
qed

lemmas builder_defs = build_dqdt_def builder_at_def reaction_step_def append_term_def
  reaction_term_def connection_step_def species_rates_def tuple_item_def lookup_index_def
  item_def getitem_def py_pow_def result_of_def bind_err_simps

lemmas reacting_defs = reacting_system_def reacting_compartment_def binding_def box_def

lemma build_reacting_system: "build_dqdt reacting_system = Inr reacting_dqdt"
  by (simp add: builder_defs reacting_defs reacting_dqdt_def upt_conv_Cons numeral_2_eq_2)

lemma reacting_lookup:
  "(0::nat) < state_size (sys_state reacting_system)"
  "map_of (sys_model reacting_system) (state_compartment (sys_state reacting_system) ! 0)
     = Some reacting_compartment"
  "state_species (sys_state reacting_system) ! 0 = ''drug''"
  by (simp_all add: reacting_system_def)

lemma well_formed_reacting: "well_formed reacting_system"
  by (simp add: well_formed_def position_ok_def reaction_ok_def direction_ok_def resolved_def
      transports_def connection_ok_def neighbour_volume_def order_of_def index_of_def
      lookup_index_def getitem_def species_rates_def bind_err_simps reacting_defs upt_conv_Cons)

lemma reacting_terms:
  "reaction_sinks (sys_state reacting_system) reacting_compartment ''drug'' binding
     = [(Num (Py 3), [0, 1, 1])]"
  "reaction_sources (sys_state reacting_system) reacting_compartment ''drug'' binding
     = [(Num (Py 2), [2])]"
  by (simp_all add: reaction_sinks_def reaction_sources_def mass_action_term_def order_of_def
      index_of_def lookup_index_def getitem_def bind_err_simps result_of_def reacting_defs
      numeral_2_eq_2)

text \<open>
  Position 0 of the example holds the species \<open>drug\<close>, a reactant of the reaction
  \<open>drug + 2 receptor \<rightleftharpoons> complex\<close>: the forward direction, of order 3 with \<open>kf = 12\<close> in a
  volume of 2, is the sink \<open>(12 / 2^2, [0, 1, 1])\<close>, in which the index of \<open>receptor\<close>
  stands twice, and the reverse direction, of order 1 with \<open>kr = 2\<close>, is the source
  \<open>(2, [2])\<close>.
\<close>

theorem reaction_terms_mass_action_witness:
  "well_formed reacting_system
   \<and> build_dqdt reacting_system = Inr reacting_dqdt
   \<and> length reacting_dqdt = state_size (sys_state reacting_system)
   \<and> reaction_sinks (sys_state reacting_system) reacting_compartment ''drug'' binding
       = [(Num (Py 3), [0, 1, 1])]
   \<and> reaction_sources (sys_state reacting_system) reacting_compartment ''drug'' binding
       = [(Num (Py 2), [2])]
   \<and> (\<exists>cs. sinks (reacting_dqdt ! 0) = [(Num (Py 3), [0, 1, 1])] @ cs)
   \<and> (\<exists>cs. sources (reacting_dqdt ! 0) = [(Num (Py 2), [2])] @ cs)
   \<and> order_of (reactants binding) (stoich_r binding) = 3
   \<and> Num (result_of [kf binding, volume reacting_compartment]
            (magnitude (kf binding) / magnitude (volume reacting_compartment) ^ nat (3 - 1)))
       = Num (Py 3)
   \<and> order_of (products binding) (stoich_p binding) = 1
   \<and> kr binding = Py 2"
proof -
  have o: "order_of (reactants binding) (stoich_r binding) = 3"
    "Num (result_of [kf binding, volume reacting_compartment]
            (magnitude (kf binding) / magnitude (volume reacting_compartment) ^ nat (3 - 1)))
       = Num (Py 3)"
    "order_of (products binding) (stoich_p binding) = 1" "kr binding = Py 2"
    by (simp_all add: order_of_def result_of_def reacting_defs)
  have r: "reactions reacting_compartment = [binding]"
    by (simp add: reacting_compartment_def)
  note t = reaction_terms_mass_action
    [OF well_formed_reacting reacting_lookup(1,2) reacting_lookup(3) [symmetric]]
  from t obtain dqdt where d: "build_dqdt reacting_system = Inr dqdt"
    and len: "length dqdt = state_size (sys_state reacting_system)"
    and src: "\<exists>cs. sources (dqdt ! 0) =
            concat (map (reaction_sources (sys_state reacting_system) reacting_compartment ''drug'')
                      (reactions reacting_compartment)) @ cs"
    and snk: "\<exists>cs. sinks (dqdt ! 0) =
            concat (map (reaction_sinks (sys_state reacting_system) reacting_compartment ''drug'')
                      (reactions reacting_compartment)) @ cs"
    by (rule exE) (elim conjE, rule that)
  have dq: "dqdt = reacting_dqdt" using d build_reacting_system by simp
  have src': "\<exists>cs. sources (reacting_dqdt ! 0) = [(Num (Py 2), [2])] @ cs"
    using src unfolding dq r by (simp add: reacting_terms)
  have snk': "\<exists>cs. sinks (reacting_dqdt ! 0) = [(Num (Py 3), [0, 1, 1])] @ cs"
    using snk unfolding dq r by (simp add: reacting_terms)
  show ?thesis
    using well_formed_reacting build_reacting_system len [unfolded dq] reacting_terms snk' src' o
    by (intro conjI)
qed

text \<open>
  Position 0 of the example has one connection that transports \<open>drug\<close>, an anisotropic
  one with the rate pair \<open>(6, 4)\<close>, to a neighbour of volume 3 whose state index for
  \<open>drug\<close> is 3: after the terms of the reaction come the sink \<open>(6/2, [0])\<close> and the source
  \<open>(4/3, [3])\<close>.
\<close>

theorem connection_terms_witness:
  "well_formed reacting_system
   \<and> build_dqdt reacting_system = Inr reacting_dqdt
   \<and> filter (transports ''drug'') (connections reacting_compartment)
       = [(''b'', Anisotropic [(''drug'', Tuple [Num (Py 6), Num (Py 4)])])]
   \<and> ratio (k_out (Anisotropic [(''drug'', Tuple [Num (Py 6), Num (Py 4)])]) ''drug'')
        (volume reacting_compartment) = Num (Py 3)
   \<and> ratio (k_in (Anisotropic [(''drug'', Tuple [Num (Py 6), Num (Py 4)])]) ''drug'')
        (neighbour_volume reacting_system ''b'') = Num (Py (4 / 3))
   \<and> index_of (sys_state reacting_system) ''b'' ''drug'' = 3
   \<and> sinks (reacting_dqdt ! 0) = [(Num (Py 3), [0, 1, 1]), (Num (Py 3), [0])]
   \<and> sources (reacting_dqdt ! 0) = [(Num (Py 2), [2]), (Num (Py (4 / 3)), [3])]"
proof -
  have f: "filter (transports ''drug'') (connections reacting_compartment)
       = [(''b'', Anisotropic [(''drug'', Tuple [Num (Py 6), Num (Py 4)])])]"
    by (simp add: transports_def species_rates_def reacting_compartment_def box_def)
  have ko: "ratio (k_out (Anisotropic [(''drug'', Tuple [Num (Py 6), Num (Py 4)])]) ''drug'')
        (volume reacting_compartment) = Num (Py 3)"
    by (simp add: ratio_def result_of_def k_out_def species_rates_def reacting_compartment_def box_def)
  have ki: "ratio (k_in (Anisotropic [(''drug'', Tuple [Num (Py 6), Num (Py 4)])]) ''drug'')
        (neighbour_volume reacting_system ''b'') = Num (Py (4 / 3))"
    by (simp add: ratio_def result_of_def k_in_def species_rates_def neighbour_volume_def
        reacting_system_def box_def)
  have ix: "index_of (sys_state reacting_system) ''b'' ''drug'' = 3"
    by (simp add: index_of_def lookup_index_def getitem_def bind_err_simps reacting_system_def)
  have r: "reactions reacting_compartment = [binding]"
    by (simp add: reacting_compartment_def)
  note t = connection_terms
    [OF well_formed_reacting reacting_lookup(1,2) reacting_lookup(3) [symmetric]]
  from t obtain dqdt where d: "build_dqdt reacting_system = Inr dqdt"
    and snk: "sinks (dqdt ! 0) =
         concat (map (reaction_sinks (sys_state reacting_system) reacting_compartment ''drug'')
                   (reactions reacting_compartment))
         @ map (\<lambda>e. (ratio (k_out (snd e) ''drug'') (volume reacting_compartment), [0]))
             (filter (transports ''drug'') (connections reacting_compartment))"
    and src: "sources (dqdt ! 0) =
         concat (map (reaction_sources (sys_state reacting_system) reacting_compartment ''drug'')
                   (reactions reacting_compartment))
         @ map (\<lambda>e. (ratio (k_in (snd e) ''drug'') (neighbour_volume reacting_system (fst e)),
                      [index_of (sys_state reacting_system) (fst e) ''drug'']))
             (filter (transports ''drug'') (connections reacting_compartment))"
    by (rule exE) (elim conjE, rule that)
  have dq: "dqdt = reacting_dqdt" using d build_reacting_system by simp
  have snk': "sinks (reacting_dqdt ! 0) = [(Num (Py 3), [0, 1, 1]), (Num (Py 3), [0])]"
    using snk unfolding dq r f by (simp add: reacting_terms ko)
  have src': "sources (reacting_dqdt ! 0) = [(Num (Py 2), [2]), (Num (Py (4 / 3)), [3])]"
    using src unfolding dq r f by (simp add: reacting_terms ki ix)
  show ?thesis
    using well_formed_reacting build_reacting_system f ko ki ix snk' src'
    by (intro conjI)
qed

subsection \<open>Flattening a model\<close>

lemma FlatModel_add_compartment_Inr:
  "FlatModel_add_compartment fm c = Inr fm' \<Longrightarrow> flat_ID c \<notin> fst ` set fm \<and> fm' = fm @ [flat_entry c]"
  by (auto simp: FlatModel_add_compartment_def flat_ID_def flat_entry_def Let_def split: if_splits)

lemma FlatModel_add_compartment_Inl:
  "FlatModel_add_compartment fm c = Inl e \<Longrightarrow> e = ValueError (Duplicate_compartment_ID (flat_ID c))"
  by (auto simp: FlatModel_add_compartment_def flat_ID_def Let_def split: if_splits)

lemma FlatModel_add_compartment_fresh:
  "flat_ID c \<notin> fst ` set fm \<Longrightarrow> FlatModel_add_compartment fm c = Inr (fm @ [flat_entry c])"
  by (auto simp: FlatModel_add_compartment_def flat_ID_def flat_entry_def Let_def)

lemma add_compartments_Inr:
  "add_compartments fm cs = Inr fm' \<Longrightarrow> fm' = fm @ map flat_entry cs"
proof (induction cs arbitrary: fm)
  case Nil
  then show ?case by simp
next
  case (Cons c cs)
  from Cons.prems obtain fm1 where a: "FlatModel_add_compartment fm c = Inr fm1"
    and b: "add_compartments fm1 cs = Inr fm'"
    unfolding add_compartments.simps by (blast dest: bind_err_Inr)
  show ?case using FlatModel_add_compartment_Inr [OF a] Cons.IH [OF b] by simp
qed

lemma fst_flat_entry: "fst (flat_entry c) = flat_ID c"
  by (simp add: flat_entry_def)

lemma add_compartments_distinct:
  "distinct (map fst fm @ map flat_ID cs) \<Longrightarrow> add_compartments fm cs = Inr (fm @ map flat_entry cs)"
proof (induction cs arbitrary: fm)
  case Nil
  then show ?case by simp
next
  case (Cons c cs)
  have f: "flat_ID c \<notin> fst ` set fm" using Cons.prems by auto
  have "distinct (map fst (fm @ [flat_entry c]) @ map flat_ID cs)"
    using Cons.prems by (auto simp: fst_flat_entry)
  from Cons.IH [OF this] show ?case
    by (simp add: FlatModel_add_compartment_fresh [OF f] bind_err_simps)
qed

lemma add_compartments_Inl:
  "add_compartments fm cs = Inl e \<Longrightarrow> \<exists>d. e = ValueError (Duplicate_compartment_ID d)"
proof (induction cs arbitrary: fm)
  case Nil
  then show ?case by simp
next
  case (Cons c cs)
  show ?case
  proof (cases "FlatModel_add_compartment fm c")
    case (Inl e')
    then show ?thesis using Cons.prems FlatModel_add_compartment_Inl
      by (auto simp: bind_err_simps)
  next
    case (Inr fm1)
    then show ?thesis using Cons.prems Cons.IH by (simp add: bind_err_simps)
  qed
qed

lemma add_arrays_Inr:
  "add_arrays fm as = Inr fm' \<Longrightarrow>
   fm' = fm @ map flat_entry (concat (map (\<lambda>a. map snd (array_compartments a)) as))"
proof (induction as arbitrary: fm)
  case Nil
  then show ?case by simp
next
  case (Cons a as)
  from Cons.prems obtain fm1 where a: "add_compartments fm (map snd (array_compartments a)) = Inr fm1"
    and b: "add_arrays fm1 as = Inr fm'"
    unfolding add_arrays.simps by (blast dest: bind_err_Inr)
  show ?case using add_compartments_Inr [OF a] Cons.IH [OF b] by simp
qed

lemma add_arrays_distinct:
  "distinct (map fst fm @ map flat_ID (concat (map (\<lambda>a. map snd (array_compartments a)) as))) \<Longrightarrow>
   add_arrays fm as = Inr (fm @ map flat_entry (concat (map (\<lambda>a. map snd (array_compartments a)) as)))"
proof (induction as arbitrary: fm)
  case Nil
  then show ?case by simp
next
  case (Cons a as)
  have d1: "distinct (map fst fm @ map flat_ID (map snd (array_compartments a)))"
    using Cons.prems by auto
  have "distinct (map fst (fm @ map flat_entry (map snd (array_compartments a)))
           @ map flat_ID (concat (map (\<lambda>a. map snd (array_compartments a)) as)))"
    using Cons.prems by (simp add: comp_def fst_flat_entry)
  from Cons.IH [OF this] show ?case
    by (simp add: add_compartments_distinct [OF d1] bind_err_simps)
qed

lemma add_arrays_Inl:
  "add_arrays fm as = Inl e \<Longrightarrow> \<exists>d. e = ValueError (Duplicate_compartment_ID d)"
proof (induction as arbitrary: fm)
  case Nil
  then show ?case by simp
next
  case (Cons a as)
  show ?case
  proof (cases "add_compartments fm (map snd (array_compartments a))")
    case (Inl e')
    then show ?thesis using Cons.prems add_compartments_Inl by (auto simp: bind_err_simps)
  next
    case (Inr fm1)
    then show ?thesis using Cons.prems Cons.IH by (simp add: bind_err_simps)
  qed
qed

lemma all_compartments_arrays:
  "concat (map (\<lambda>(n, a). map snd (array_compartments a)) xs)
     = concat (map (\<lambda>a. map snd (array_compartments a)) (map snd xs))"
  by (induction xs) auto

lemma flat_namespace_Inr:
  "flat_namespace self = Inr fm \<Longrightarrow> fm = map flat_entry (all_compartments self)"
proof -
  assume a: "flat_namespace self = Inr fm"
  then obtain fm0 where x: "add_compartments [] (map snd (compartments self)) = Inr fm0"
    and y: "add_arrays fm0 (map snd (arrays self)) = Inr fm"
    unfolding flat_namespace_def by (blast dest: bind_err_Inr)
  show ?thesis
    using add_compartments_Inr [OF x] add_arrays_Inr [OF y]
    by (simp add: all_compartments_def all_compartments_arrays)
qed

lemma flat_namespace_Inl:
  "flat_namespace self = Inl e \<Longrightarrow> \<exists>d. e = ValueError (Duplicate_compartment_ID d)"
  unfolding flat_namespace_def
  by (cases "add_compartments [] (map snd (compartments self))")
     (auto simp: bind_err_simps dest: add_compartments_Inl add_arrays_Inl)

lemma flat_namespace_distinct:
  assumes "distinct (map flat_ID (all_compartments self))"
  shows "flat_namespace self = Inr (map flat_entry (all_compartments self))"
proof -
  have d0: "distinct (map fst ([]::flatmodel) @ map flat_ID (map snd (compartments self)))"
    using assms by (simp add: all_compartments_def)
  have "distinct (map fst (([]::flatmodel) @ map flat_entry (map snd (compartments self)))
          @ map flat_ID (concat (map (\<lambda>a. map snd (array_compartments a)) (map snd (arrays self)))))"
    using assms by (simp add: all_compartments_def all_compartments_arrays comp_def fst_flat_entry)
  from add_arrays_distinct [OF this] show ?thesis
    unfolding flat_namespace_def
    by (simp add: add_compartments_distinct [OF d0] bind_err_simps all_compartments_def
        all_compartments_arrays)
qed

lemma find_missing_iff:
  "nbor \<in> set (find_missing_compartments fm) \<longleftrightarrow>
   (\<exists>e \<in> set fm. nbor \<in> fst ` set (connections (snd e))) \<and> nbor \<notin> fst ` set fm"
  by (force simp: find_missing_compartments_def)

lemma connections_copy: "connections (copy c i) = connections c"
  by (simp add: copy_def)

lemma add_compartments_keys:
  "add_compartments fm cs = Inr fm' \<Longrightarrow> distinct (map fst fm) \<Longrightarrow> distinct (map fst fm')"
proof (induction cs arbitrary: fm)
  case Nil
  then show ?case by simp
next
  case (Cons c cs)
  from Cons.prems(1) obtain fm1 where a: "FlatModel_add_compartment fm c = Inr fm1"
    and b: "add_compartments fm1 cs = Inr fm'"
    unfolding add_compartments.simps by (blast dest: bind_err_Inr)
  have "distinct (map fst fm1)"
    using FlatModel_add_compartment_Inr [OF a] Cons.prems(2) by (auto simp: fst_flat_entry)
  then show ?case using Cons.IH [OF b] by simp
qed

lemma add_arrays_keys:
  "add_arrays fm as = Inr fm' \<Longrightarrow> distinct (map fst fm) \<Longrightarrow> distinct (map fst fm')"
proof (induction as arbitrary: fm)
  case Nil
  then show ?case by simp
next
  case (Cons a as)
  from Cons.prems(1) obtain fm1 where a: "add_compartments fm (map snd (array_compartments a)) = Inr fm1"
    and b: "add_arrays fm1 as = Inr fm'"
    unfolding add_arrays.simps by (blast dest: bind_err_Inr)
  show ?case using Cons.IH [OF b add_compartments_keys [OF a Cons.prems(2)]] .
qed

lemma flat_namespace_keys:
  assumes "flat_namespace self = Inr fm"
  shows "distinct (map flat_ID (all_compartments self))"
proof -
  from assms obtain fm0 where x: "add_compartments [] (map snd (compartments self)) = Inr fm0"
    and y: "add_arrays fm0 (map snd (arrays self)) = Inr fm"
    unfolding flat_namespace_def by (blast dest: bind_err_Inr)
  have "distinct (map fst fm)"
    using add_arrays_keys [OF y add_compartments_keys [OF x]] by simp
  then show ?thesis
    unfolding flat_namespace_Inr [OF assms] by (simp add: comp_def fst_flat_entry)
qed

lemma flatten_duplicate:
  assumes "\<not> distinct (map flat_ID (all_compartments self))"
  shows "\<exists>d. flatten self st = Inl (ValueError (Duplicate_compartment_ID d))"
proof (cases "flat_namespace self")
  case (Inl e)
  then show ?thesis using flat_namespace_Inl [OF Inl] by (simp add: flatten_def bind_err_simps)
next
  case (Inr fm)
  then show ?thesis using flat_namespace_keys assms by blast
qed

lemmas flatten_defs = flatten_def flat_namespace_def FlatModel_add_compartment_def makeID_def
  copy_def find_missing_compartments_def resolve_ficks_def bind_geometry_def
  compute_surface_area_def compute_ic_distance_def adjoining_def min_face_def
  center_difference_def wrap_def subscript_def item_def getitem_def resolve_def py_mul_def
  py_min_def result_of_def IsotropicConnection_init_def connect_def bind_err_simps Let_def
  constant_store_def

text \<open>
  C4: when a compartment of a model has a connection to an ID that is not the flattened
  ID of any compartment of the model, \<^verbatim>\<open>flatten\<close> returns no flat model, resolved or
  partly resolved. The flattened namespace that the claim speaks of is built when the
  flattened IDs of the compartments are distinct: \<^verbatim>\<open>flatten\<close> then raises the
  \<open>ValueError\<close> that lists the missing IDs, the ID of that connection among them, before
  it resolves any connection. Compartments that share a flattened ID stop \<^verbatim>\<open>flatten\<close>
  while the namespace is built, with the \<open>ValueError\<close> of the duplicate ID.
\<close>

theorem flatten_missing_reference:
  assumes "c \<in> set (all_compartments self)" "nbor \<in> fst ` set (connections c)"
    "nbor \<notin> flat_ID ` set (all_compartments self)"
  shows "(\<exists>e. flatten self st = Inl e)
     \<and> (distinct (map flat_ID (all_compartments self)) \<longrightarrow>
          (\<exists>missing. flatten self st = Inl (ValueError (Missing_compartments missing))
             \<and> nbor \<in> set missing))
     \<and> (\<not> distinct (map flat_ID (all_compartments self)) \<longrightarrow>
          (\<exists>d. flatten self st = Inl (ValueError (Duplicate_compartment_ID d))))"
proof -
  have miss: "nbor \<in> set (find_missing_compartments (map flat_entry (all_compartments self)))"
    unfolding find_missing_iff using assms
    by (auto simp: flat_entry_def connections_copy image_iff intro!: bexI [of _ c])
  have ret: "flat_namespace self = Inr fm \<Longrightarrow>
     flatten self st = Inl (ValueError (Missing_compartments (find_missing_compartments fm)))
     \<and> nbor \<in> set (find_missing_compartments fm)" for fm
  proof -
    assume a: "flat_namespace self = Inr fm"
    have fm: "fm = map flat_entry (all_compartments self)" using a by (rule flat_namespace_Inr)
    have "find_missing_compartments fm \<noteq> []" using miss fm by auto
    then show ?thesis using a miss fm by (simp add: flatten_def bind_err_simps Let_def)
  qed
  show ?thesis
  proof (intro conjI impI)
    show "\<exists>e. flatten self st = Inl e"
    proof (cases "flat_namespace self")
      case (Inl e)
      then show ?thesis by (simp add: flatten_def bind_err_simps)
    next
      case (Inr fm)
      then show ?thesis using ret by blast
    qed
  next
    assume "distinct (map flat_ID (all_compartments self))"
    then have "flat_namespace self = Inr (map flat_entry (all_compartments self))"
      by (rule flat_namespace_distinct)
    then show "\<exists>missing. flatten self st = Inl (ValueError (Missing_compartments missing))
             \<and> nbor \<in> set missing"
      using ret by blast
  next
    assume "\<not> distinct (map flat_ID (all_compartments self))"
    then show "\<exists>d. flatten self st = Inl (ValueError (Duplicate_compartment_ID d))"
      by (rule flatten_duplicate)
  qed
qed

lemma extends_refl: "extends st st"
  by (simp add: extends_def)

lemma extends_trans: "extends st st1 \<Longrightarrow> extends st1 S \<Longrightarrow> extends st S"
  by (simp add: extends_def)

lemma bind_geometry_bound:
  assumes "bind_geometry self c1 c2 f = Inr f'"
  shows "species_d_constants f' = species_d_constants f"
    and "\<And>x. surface_area f = Some x \<Longrightarrow> surface_area f' = Some x"
    and "\<And>x. ic_distance f = Some x \<Longrightarrow> ic_distance f' = Some x"
    and "\<exists>A. surface_area f' = Some A" and "\<exists>d. ic_distance f' = Some d"
  using assms
  by (auto simp: bind_geometry_def bind_err_def split: sum.splits option.splits)

lemma bind_geometry_fixed:
  "surface_area f = Some A \<Longrightarrow> ic_distance f = Some d \<Longrightarrow> bind_geometry self c1 c2 f = Inr f"
  by (simp add: bind_geometry_def bind_err_simps)

lemma resolve_ficks_stable: "stable (resolve_ficks self k1 k2 a)"
  unfolding stable_def
proof (intro allI impI)
  fix st fm st1 fm1
  assume r: "resolve_ficks self k1 k2 a (st, fm) = Inr (st1, fm1)"
  from r obtain c1 where c1: "map_of fm k1 = Some c1"
    by (cases "map_of fm k1") (simp_all add: resolve_ficks_def)
  from r c1 obtain c2 where c2: "map_of fm k2 = Some c2"
    by (cases "map_of fm k2") (simp_all add: resolve_ficks_def)
  note u = resolve_ficks_unfold [OF c1 c2]
  from r obtain conn where g: "bind_geometry self c1 c2 (st a) = Inr conn" and
    r1: "bind_err (resolve conn) (\<lambda>new_conn.
       case map_of (AList.update k1 (connect c1 c2 new_conn) fm) k2 of
         None \<Rightarrow> Inl KeyError
       | Some c2' \<Rightarrow>
           Inr (st(a := conn),
                AList.update k2 (connect c2' (connect c1 c2 new_conn) new_conn)
                  (AList.update k1 (connect c1 c2 new_conn) fm))) = Inr (st1, fm1)"
    unfolding u by (blast dest: bind_err_Inr)
  from r1 obtain new_conn where n: "resolve conn = Inr new_conn" and
    r2: "(case map_of (AList.update k1 (connect c1 c2 new_conn) fm) k2 of
         None \<Rightarrow> Inl KeyError
       | Some c2' \<Rightarrow>
           Inr (st(a := conn),
                AList.update k2 (connect c2' (connect c1 c2 new_conn) new_conn)
                  (AList.update k1 (connect c1 c2 new_conn) fm))) = Inr (st1, fm1)"
    by (blast dest: bind_err_Inr)
  from r2 obtain c2' where c2': "map_of (AList.update k1 (connect c1 c2 new_conn) fm) k2 = Some c2'"
    and st1: "st1 = st(a := conn)"
    and fm1: "fm1 = AList.update k2 (connect c2' (connect c1 c2 new_conn) new_conn)
                  (AList.update k1 (connect c1 c2 new_conn) fm)"
    by (auto split: option.splits)
  note b = bind_geometry_bound [OF g]
  have ext: "extends st st1"
    unfolding extends_def st1 using b(1,2,3) by simp
  have again: "resolve_ficks self k1 k2 a (S, fm) = Inr (S, fm1)" if e: "extends st1 S" for S
  proof -
    from b(4,5) obtain A d where A: "surface_area conn = Some A" and d: "ic_distance conn = Some d"
      by blast
    have "species_d_constants (S a) = species_d_constants conn"
      "surface_area (S a) = Some A" "ic_distance (S a) = Some d"
      using e A d unfolding extends_def st1 by (auto dest: spec [of _ a])
    then have Sa: "S a = conn" using A d by simp
    have g': "bind_geometry self c1 c2 (S a) = Inr (S a)"
      using A d unfolding Sa by (rule bind_geometry_fixed)
    have upd: "S(a := S a) = S" by simp
    show ?thesis
      unfolding resolve_ficks_unfold [OF c1 c2] g' bind_err_simps
      unfolding Sa n bind_err_simps c2' option.case fm1
      using upd unfolding Sa by simp
  qed
  show "extends st st1 \<and> (\<forall>S. extends st1 S \<longrightarrow> resolve_ficks self k1 k2 a (S, fm) = Inr (S, fm1))"
    using ext again by blast
qed

lemma stableI:
  assumes "\<And>st fm st1 fm1. f (st, fm) = Inr (st1, fm1) \<Longrightarrow>
     extends st st1 \<and> (\<forall>S. extends st1 S \<longrightarrow> f (S, fm) = Inr (S, fm1))"
  shows "stable f"
  unfolding stable_def using assms by (intro allI impI)

lemma stableD:
  assumes "stable f" "f (st, fm) = Inr (st1, fm1)"
  shows "extends st st1" and "\<And>S. extends st1 S \<Longrightarrow> f (S, fm) = Inr (S, fm1)"
proof -
  from assms(1) have "f (st, fm) = Inr (st1, fm1) \<longrightarrow>
        extends st st1 \<and> (\<forall>S. extends st1 S \<longrightarrow> f (S, fm) = Inr (S, fm1))"
    unfolding stable_def by (elim allE)
  with assms(2) have c: "extends st st1 \<and> (\<forall>S. extends st1 S \<longrightarrow> f (S, fm) = Inr (S, fm1))"
    by (rule rev_mp)
  from c show "extends st st1" by (rule conjunct1)
  from c show "\<And>S. extends st1 S \<Longrightarrow> f (S, fm) = Inr (S, fm1)"
    by (elim conjE allE impE)
qed

lemma stable_Inr: "stable Inr"
  by (rule stableI) (simp add: extends_refl)

lemma stable_Inl: "stable (\<lambda>s. Inl e)"
  by (rule stableI) simp

lemma stable_bind:
  assumes "stable f" "stable g"
  shows "stable (\<lambda>s. bind_err (f s) g)"
proof (rule stableI)
  fix st fm st1 fm1
  assume "bind_err (f (st, fm)) g = Inr (st1, fm1)"
  then obtain s2 where f: "f (st, fm) = Inr s2" and g: "g s2 = Inr (st1, fm1)"
    by (blast dest: bind_err_Inr)
  obtain st2 fm2 where s2: "s2 = (st2, fm2)" by (cases s2)
  note F = stableD [OF assms(1) f [unfolded s2]]
  note G = stableD [OF assms(2) g [unfolded s2]]
  have "bind_err (f (S, fm)) g = Inr (S, fm1)" if "extends st1 S" for S
    using F(2) [OF extends_trans [OF G(1) that]] G(2) [OF that] by (simp add: bind_err_simps)
  then show "extends st st1 \<and> (\<forall>S. extends st1 S \<longrightarrow> bind_err (f (S, fm)) g = Inr (S, fm1))"
    using extends_trans [OF F(1) G(1)] by blast
qed

text \<open>A step that looks at the flat model only to choose how to go on.\<close>

lemma stable_choice:
  assumes "\<And>fm. stable (h fm)"
  shows "stable (\<lambda>s. h (snd s) s)"
proof (rule stableI)
  fix st fm st1 fm1
  assume "h (snd (st, fm)) (st, fm) = Inr (st1, fm1)"
  then have a: "h fm (st, fm) = Inr (st1, fm1)" by simp
  note H = stableD [OF assms a]
  show "extends st st1 \<and> (\<forall>S. extends st1 S \<longrightarrow> h (snd (S, fm)) (S, fm) = Inr (S, fm1))"
    using H by simp
qed

lemma resolve_connections_stable: "stable (resolve_connections self k labels)"
proof (induction labels)
  case Nil
  have "resolve_connections self k [] = Inr" by (rule ext) simp
  then show ?case by (simp add: stable_Inr)
next
  case (Cons label labels)
  define h where "h fm =
     (case map_of (fm :: flatmodel) k of
        None \<Rightarrow> (\<lambda>s. Inl KeyError)
      | Some c \<Rightarrow>
          (case map_of (connections c) label of
             Some (Ficks a) \<Rightarrow>
               (\<lambda>s. bind_err (resolve_ficks self k label a s) (resolve_connections self k labels))
           | _ \<Rightarrow> resolve_connections self k labels))" for fm
  have "stable (h fm)" for fm
  proof (cases "map_of fm k")
    case None
    then show ?thesis by (simp add: h_def stable_Inl)
  next
    case (Some c)
    show ?thesis
    proof (cases "map_of (connections c) label")
      case None
      then show ?thesis using Some Cons.IH by (simp add: h_def)
    next
      case conn: (Some conn)
      show ?thesis
      proof (cases conn)
        case (Ficks a)
        have "stable (\<lambda>s. bind_err (resolve_ficks self k label a s) (resolve_connections self k labels))"
          using resolve_ficks_stable Cons.IH by (rule stable_bind)
        then show ?thesis using Some conn Ficks by (simp add: h_def)
      next
        case (Isotropic x)
        then show ?thesis using Some conn Cons.IH by (simp add: h_def)
      next
        case (Anisotropic x)
        then show ?thesis using Some conn Cons.IH by (simp add: h_def)
      qed
    qed
  qed
  then have "stable (\<lambda>s. h (snd s) s)" by (rule stable_choice)
  moreover have "resolve_connections self k (label # labels) s = h (snd s) s" for s
    unfolding h_def resolve_connections.simps
    by (simp split: option.split connection.split)
  ultimately show ?case by (simp add: ext [of "resolve_connections self k (label # labels)"])
qed

lemma resolve_compartments_stable: "stable (resolve_compartments self ks)"
proof (induction ks)
  case Nil
  have "resolve_compartments self [] = Inr" by (rule ext) simp
  then show ?case by (simp add: stable_Inr)
next
  case (Cons k ks)
  define h where "h fm =
     (case map_of (fm :: flatmodel) k of
        None \<Rightarrow> (\<lambda>s. Inl KeyError)
      | Some c \<Rightarrow>
          (\<lambda>s. bind_err (resolve_connections self k (map fst (connections c)) s)
                 (resolve_compartments self ks)))" for fm
  have "stable (h fm)" for fm
  proof (cases "map_of fm k")
    case None
    then show ?thesis by (simp add: h_def stable_Inl)
  next
    case (Some c)
    have "stable (\<lambda>s. bind_err (resolve_connections self k (map fst (connections c)) s)
                 (resolve_compartments self ks))"
      using resolve_connections_stable Cons.IH by (rule stable_bind)
    then show ?thesis using Some by (simp add: h_def)
  qed
  then have "stable (\<lambda>s. h (snd s) s)" by (rule stable_choice)
  moreover have "resolve_compartments self (k # ks) s = h (snd s) s" for s
    unfolding h_def resolve_compartments.simps
    by (simp split: option.split)
  ultimately show ?case by (simp add: ext [of "resolve_compartments self (k # ks)"])
qed

lemma flatten_fixed:
  assumes "flatten self st = Inr (st', flatmodel)"
  shows "flatten self st' = Inr (st', flatmodel)"
proof -
  from assms obtain fm where ns: "flat_namespace self = Inr fm" and
    r: "(let missing = find_missing_compartments fm
       in if length missing > 0
          then Inl (ValueError (Missing_compartments missing))
          else resolve_compartments self (map fst fm) (st, fm)) = Inr (st', flatmodel)"
    unfolding flatten_def by (blast dest: bind_err_Inr)
  have m: "\<not> length (find_missing_compartments fm) > 0"
    using r by (auto simp: Let_def split: if_splits)
  then have "resolve_compartments self (map fst fm) (st, fm) = Inr (st', flatmodel)"
    using r by (simp add: Let_def)
  then have "resolve_compartments self (map fst fm) (st', fm) = Inr (st', flatmodel)"
    using stableD(2) [OF resolve_compartments_stable _ extends_refl] by blast
  then show ?thesis
    using ns m by (simp add: flatten_def bind_err_simps Let_def)
qed

text \<open>
  C3: when \<^verbatim>\<open>flatten\<close> succeeds on a model, a second call on the same model, in the store
  of connection objects that the first call left, succeeds as well and returns a flat
  model with the same compartment IDs and the same rate constants.
\<close>

theorem flatten_twice:
  assumes "flatten self st = Inr (st', flatmodel)"
  shows "\<exists>st'' flatmodel'. flatten self st' = Inr (st'', flatmodel')
     \<and> compartment_IDs flatmodel' = compartment_IDs flatmodel
     \<and> rate_constants flatmodel' = rate_constants flatmodel"
  using flatten_fixed [OF assms] by blast

lemma flatten_slab:
  "flatten (slab_model [(''bulk-0'', Ficks 0)]) (constant_store (example_ficks None None))
     = Inr ((constant_store (example_ficks None None))(0 := slab_ficks), slab_flat)"
  by (simp add: flatten_defs slab_model_def slab_flat_def slab_ficks_def array_member_def box_def
      example_ficks_def)

text \<open>
  The two compartments of the example share one Ficks connection without geometry. The
  first call binds its surface area and distance to 1 and resolves it to the rate pair
  \<open>(1, 1)\<close> of numpy floats; the second call, with the geometry bound, returns the same
  flat model.
\<close>

theorem flatten_twice_witness:
  "flatten (slab_model [(''bulk-0'', Ficks 0)]) (constant_store (example_ficks None None))
     = Inr ((constant_store (example_ficks None None))(0 := slab_ficks), slab_flat)
   \<and> compartment_IDs slab_flat = {''bulk-0'', ''bulk-1''}
   \<and> (\<exists>st'' flatmodel'.
         flatten (slab_model [(''bulk-0'', Ficks 0)])
           ((constant_store (example_ficks None None))(0 := slab_ficks))
           = Inr (st'', flatmodel')
       \<and> compartment_IDs flatmodel' = compartment_IDs slab_flat
       \<and> rate_constants flatmodel' = rate_constants slab_flat)"
proof -
  have c: "compartment_IDs slab_flat = {''bulk-0'', ''bulk-1''}"
    by (simp add: compartment_IDs_def slab_flat_def)
  show ?thesis
    using flatten_slab c flatten_twice [OF flatten_slab] by blast
qed

text \<open>
  When the second compartment of the example is connected to \<open>bulk-9\<close>, which the model
  does not have, \<^verbatim>\<open>flatten\<close> raises the error that lists \<open>bulk-9\<close>.
\<close>

theorem flatten_missing_reference_witness:
  "array_member ''1'' (1, 2) [(''bulk-9'', Ficks 0)] \<in> set (all_compartments (slab_model [(''bulk-9'', Ficks 0)]))
   \<and> ''bulk-9'' \<in> fst ` set (connections (array_member ''1'' (1, 2) [(''bulk-9'', Ficks 0)]))
   \<and> ''bulk-9'' \<notin> flat_ID ` set (all_compartments (slab_model [(''bulk-9'', Ficks 0)]))
   \<and> distinct (map flat_ID (all_compartments (slab_model [(''bulk-9'', Ficks 0)])))
   \<and> flatten (slab_model [(''bulk-9'', Ficks 0)]) (constant_store (example_ficks None None))
       = Inl (ValueError (Missing_compartments [''bulk-9'']))
   \<and> (\<exists>missing. flatten (slab_model [(''bulk-9'', Ficks 0)]) (constant_store (example_ficks None None))
          = Inl (ValueError (Missing_compartments missing)) \<and> ''bulk-9'' \<in> set missing)"
proof -
  have h1: "array_member ''1'' (1, 2) [(''bulk-9'', Ficks 0)]
      \<in> set (all_compartments (slab_model [(''bulk-9'', Ficks 0)]))"
    by (simp add: all_compartments_def slab_model_def)
  have h2: "''bulk-9'' \<in> fst ` set (connections (array_member ''1'' (1, 2) [(''bulk-9'', Ficks 0)]))"
    by (simp add: array_member_def box_def)
  have h3: "''bulk-9'' \<notin> flat_ID ` set (all_compartments (slab_model [(''bulk-9'', Ficks 0)]))"
    by (simp add: all_compartments_def slab_model_def flat_ID_def makeID_def array_member_def box_def)
  have h4: "distinct (map flat_ID (all_compartments (slab_model [(''bulk-9'', Ficks 0)])))"
    by (simp add: all_compartments_def slab_model_def flat_ID_def makeID_def array_member_def box_def)
  have e: "flatten (slab_model [(''bulk-9'', Ficks 0)]) (constant_store (example_ficks None None))
       = Inl (ValueError (Missing_compartments [''bulk-9'']))"
    by (simp add: flatten_defs slab_model_def array_member_def box_def)
  note t = flatten_missing_reference [OF h1 h2 h3, of "constant_store (example_ficks None None)"]
  show ?thesis
    using h1 h2 h3 h4 e t by blast
qed

end
